theory Spec2Isabelle
  imports Complex_Main
begin

section \<open>Common data: errors, arrays, the gate contract\<close>

text \<open>
  Every \<^verbatim>\<open>raise\<close> of the Python sources is a value of \<open>error\<close>; a call that may raise
  returns \<open>error + 'a\<close> with \<open>Inl\<close> for the exception. \<open>ShapeError\<close> stands for the
  \<^verbatim>\<open>ValueError\<close> numpy raises on operands of incompatible shape, kept apart from the
  \<^verbatim>\<open>ValueError\<close>s the repository raises itself.
\<close>

datatype error =
    TypeError
  | ValueError
  | KeyError
  | IndexError
  | AttributeError
  | ParameterMismatch
  | ShapeError

text \<open>
  A numpy matrix is the list of its rows. Python floats are modelled as \<open>real\<close> and
  complex128 as \<open>complex\<close>: arithmetic is exact.
\<close>

type_synonym matrix = "complex list list"

text \<open>
  A gradient is a numpy array of any number of axes, and the composed gates index it
  with three indices, so the number of axes is part of the model: \<open>Array1\<close> is an array
  of one axis (\<^verbatim>\<open>np.array([])\<close> is \<open>Array1 []\<close>), \<open>Array2\<close> a single matrix, \<open>Array3\<close> a
  stack of matrices, one for each parameter.
\<close>

datatype ndarray =
    Array1 "complex list"
  | Array2 matrix
  | Array3 "matrix list"

text \<open>
  The gate capability contract (\<^verbatim>\<open>bqskit.ir.Gate\<close>), as far as the composed gates use
  it: parameter count, size, radixes, unitary and gradient.
\<close>

record gate =
  get_num_params :: nat
  get_size :: nat
  get_radixes :: "nat list"
  gate_get_unitary :: "real list \<Rightarrow> error + matrix"
  gate_get_grad :: "real list \<Rightarrow> error + ndarray"

text \<open>
  Modelled from the spec: \<^verbatim>\<open>Gate.check_parameters\<close> is not among the sources. The spec
  requires \<^verbatim>\<open>len(params) == num_params\<close> and a ParameterMismatch otherwise.
\<close>

definition check_parameters :: "nat \<Rightarrow> real list \<Rightarrow> error + unit" where
  "check_parameters num_params params =
     (if length params = num_params then Inr () else Inl ParameterMismatch)"

section \<open>FrozenParameterGate (bqskit/ir/gates/composed/frozenparam.py)\<close>

text \<open>
  \<^verbatim>\<open>fixed_params\<close> is a Python dict from int to float: an association list whose keys
  are pairwise distinct (\<open>dict_ok\<close>), in insertion order.
\<close>

definition dict_ok :: "(int \<times> real) list \<Rightarrow> bool" where
  "dict_ok d = distinct (map fst d)"

record frozen_gate =
  fg_gate :: gate
  fg_num_params :: nat
  fg_size :: nat
  fg_radixes :: "nat list"
  fg_fixed_params :: "(int \<times> real) list"
  fg_unfixed_param_idxs :: "nat list"

text \<open>
  The constructor. The \<^verbatim>\<open>isinstance\<close> checks hold by typing. The subtraction is on
  \<open>nat\<close>, after the check that it does not go below zero.
\<close>

definition FrozenParameterGate_init :: "gate \<Rightarrow> (int \<times> real) list \<Rightarrow> error + frozen_gate" where
  "FrozenParameterGate_init g fixed_params =
     (if \<not> length fixed_params \<le> get_num_params g then Inl ValueError
      else let keys = map fst fixed_params in
        if \<not> list_all (\<lambda>p. 0 \<le> p \<and> p < int (get_num_params g)) keys then Inl ValueError
        else Inr \<lparr> fg_gate = g,
                   fg_num_params = get_num_params g - length fixed_params,
                   fg_size = get_size g,
                   fg_radixes = get_radixes g,
                   fg_fixed_params = fixed_params,
                   fg_unfixed_param_idxs =
                     filter (\<lambda>i. int i \<notin> set keys) [0..<get_num_params g] \<rparr>)"

text \<open>
  \<^verbatim>\<open>list.insert(i, x)\<close>: a negative index counts from the end, and an index beyond
  either end is clamped to that end.
\<close>

definition list_insert :: "'a list \<Rightarrow> int \<Rightarrow> 'a \<Rightarrow> 'a list" where
  "list_insert xs i x =
     (let n = int (length xs);
          j = (if i < 0 then max 0 (i + n) else min i n)
      in take (nat j) xs @ x # drop (nat j) xs)"

text \<open>The loop of \<^verbatim>\<open>get_full_params\<close> over the sorted keys; a missing key raises.\<close>

fun insert_fixed :: "(int \<times> real) list \<Rightarrow> int list \<Rightarrow> real list \<Rightarrow> error + real list" where
  "insert_fixed d [] args = Inr args"
| "insert_fixed d (idx # idxs) args =
     (case map_of d idx of
        None \<Rightarrow> Inl KeyError
      | Some v \<Rightarrow> insert_fixed d idxs (list_insert args idx v))"

definition get_full_params :: "frozen_gate \<Rightarrow> real list \<Rightarrow> error + real list" where
  "get_full_params fg params =
     (case check_parameters (fg_num_params fg) params of
        Inl e \<Rightarrow> Inl e
      | Inr _ \<Rightarrow> insert_fixed (fg_fixed_params fg) (sort (map fst (fg_fixed_params fg))) params)"

definition fg_get_unitary :: "frozen_gate \<Rightarrow> real list \<Rightarrow> error + matrix" where
  "fg_get_unitary fg params =
     (case get_full_params fg params of
        Inl e \<Rightarrow> Inl e
      | Inr full \<Rightarrow> gate_get_unitary (fg_gate fg) full)"

text \<open>
  \<^verbatim>\<open>grads[idxs, :, :]\<close> with a list of non-negative indices. The three indices need an
  array of three axes: on an array of one or two axes numpy raises IndexError (too many
  indices). On a stack the result is the stack of the matrices at these indices, in the
  order of the list; an index out of range raises IndexError.
\<close>

definition take_rows :: "ndarray \<Rightarrow> nat list \<Rightarrow> error + ndarray" where
  "take_rows grads idxs =
     (case grads of
        Array1 _ \<Rightarrow> Inl IndexError
      | Array2 _ \<Rightarrow> Inl IndexError
      | Array3 ms \<Rightarrow>
          if list_all (\<lambda>i. i < length ms) idxs then Inr (Array3 (map (\<lambda>i. ms ! i) idxs))
          else Inl IndexError)"

definition fg_get_grad :: "frozen_gate \<Rightarrow> real list \<Rightarrow> error + ndarray" where
  "fg_get_grad fg params =
     (case get_full_params fg params of
        Inl e \<Rightarrow> Inl e
      | Inr full \<Rightarrow>
          (case gate_get_grad (fg_gate fg) full of
             Inl e \<Rightarrow> Inl e
           | Inr grads \<Rightarrow> take_rows grads (fg_unfixed_param_idxs fg)))"

text \<open>The elements of a list at the positions outside a set, in order.\<close>

definition unfixed_of :: "'a list \<Rightarrow> nat set \<Rightarrow> 'a list" where
  "unfixed_of r K = map (\<lambda>i. r ! i) (filter (\<lambda>i. i \<notin> K) [0..<length r])"

text \<open>
  A three-parameter single-qubit gate, diagonal, with its analytic gradient: the subgate
  of the frozen-parameter scenarios.
\<close>

definition test_gate3 :: gate where
  "test_gate3 =
     \<lparr> get_num_params = 3, get_size = 1, get_radixes = [2],
       gate_get_unitary = (\<lambda>p. if length p = 3
          then Inr [[cis (p ! 0), 0], [0, cis (p ! 1 + p ! 2)]] else Inl ParameterMismatch),
       gate_get_grad = (\<lambda>p. if length p = 3
          then Inr (Array3 [[[\<i> * cis (p ! 0), 0], [0, 0]],
                            [[0, 0], [0, \<i> * cis (p ! 1 + p ! 2)]],
                            [[0, 0], [0, \<i> * cis (p ! 1 + p ! 2)]]])
          else Inl ParameterMismatch) \<rparr>"

section \<open>CZGate (bqskit/ir/gates/constant/cz.py)\<close>

text \<open>
  Modelled from the spec: the base classes \<^verbatim>\<open>ConstantGate\<close> and \<^verbatim>\<open>QubitGate\<close> are not among
  the sources. A constant gate has no parameters and returns the unitary of its class;
  a qubit gate has radix 2 on each of its qudits. A gate without parameters has no
  derivative matrix, and its gradient is taken to be the empty array \<^verbatim>\<open>np.array([])\<close>,
  which has one axis.
\<close>

definition CZGate :: gate where
  "CZGate =
     \<lparr> get_num_params = 0, get_size = 2, get_radixes = [2, 2],
       gate_get_unitary = (\<lambda>p. case check_parameters 0 p of
                                  Inl e \<Rightarrow> Inl e
                                | Inr _ \<Rightarrow> Inr [[1, 0, 0, 0],
                                                [0, 1, 0, 0],
                                                [0, 0, 1, 0],
                                                [0, 0, 0, - 1]]),
       gate_get_grad = (\<lambda>p. case check_parameters 0 p of
                               Inl e \<Rightarrow> Inl e
                             | Inr _ \<Rightarrow> Inr (Array1 [])) \<rparr>"

section \<open>U2Gate (bqskit/ir/gates/parameterized/u2.py)\<close>

text \<open>\<^verbatim>\<open>np.exp(1j * x)\<close> is the complex exponential of \<open>\<i> * x\<close>.\<close>

text \<open>
  Modelled from the spec: the class \<^verbatim>\<open>UnitaryMatrix\<close> is not among the sources. The spec
  has it wrap a dense matrix and check on construction that the matrix is unitary; here
  a unitary is the matrix itself, and the check is the predicate \<open>is_unitary\<close> of the
  section on matrices, which the matrix of U2 satisfies at all parameters.
\<close>

definition U2_get_unitary :: "real list \<Rightarrow> error + matrix" where
  "U2_get_unitary params =
     (case check_parameters 2 params of
        Inl e \<Rightarrow> Inl e
      | Inr _ \<Rightarrow>
          (let sq2 = complex_of_real (sqrt 2 / 2);
               eip = exp (\<i> * complex_of_real (params ! 0));
               eil = exp (\<i> * complex_of_real (params ! 1))
           in Inr [[sq2, - eil * sq2],
                   [eip * sq2, eip * eil * sq2]]))"

definition U2_get_grad :: "real list \<Rightarrow> error + matrix list" where
  "U2_get_grad params =
     (case check_parameters 2 params of
        Inl e \<Rightarrow> Inl e
      | Inr _ \<Rightarrow>
          (let sq2 = complex_of_real (sqrt 2 / 2);
               eip = exp (\<i> * complex_of_real (params ! 0));
               eil = exp (\<i> * complex_of_real (params ! 1));
               deip = \<i> * exp (\<i> * complex_of_real (params ! 0));
               deil = \<i> * exp (\<i> * complex_of_real (params ! 1))
           in Inr [[[0, 0],
                    [deip * sq2, deip * eil * sq2]],
                   [[0, - deil * sq2],
                    [0, eip * deil * sq2]]]))"

text \<open>
  The gate as a value of the contract: one qubit, two parameters. Its gradient is the
  array of three axes that \<^verbatim>\<open>np.array\<close> builds from the two matrices.
\<close>

definition U2Gate :: gate where
  "U2Gate = \<lparr> get_num_params = 2, get_size = 1, get_radixes = [2],
               gate_get_unitary = U2_get_unitary,
               gate_get_grad = (\<lambda>p. case U2_get_grad p of
                                       Inl e \<Rightarrow> Inl e
                                     | Inr ms \<Rightarrow> Inr (Array3 ms)) \<rparr>"

text \<open>
  Entry \<open>(i, j)\<close> of a returned matrix, and of the \<open>k\<close>-th matrix of a returned gradient
  (zero where the call failed).
\<close>

definition entry :: "error + matrix \<Rightarrow> nat \<Rightarrow> nat \<Rightarrow> complex" where
  "entry r i j = (case r of Inl _ \<Rightarrow> 0 | Inr m \<Rightarrow> m ! i ! j)"

definition grad_entry :: "error + matrix list \<Rightarrow> nat \<Rightarrow> nat \<Rightarrow> nat \<Rightarrow> complex" where
  "grad_entry r k i j = (case r of Inl _ \<Rightarrow> 0 | Inr ms \<Rightarrow> ms ! k ! i ! j)"


section \<open>Singleton (bqskit/utils/singleton.py)\<close>

text \<open>
  The \<^verbatim>\<open>%\<close> operator of Python strings with a single string as right operand: the
  operand is the only argument. \<^verbatim>\<open>%%\<close> is a literal percent sign, \<^verbatim>\<open>%s\<close> and \<^verbatim>\<open>%r\<close>
  take the next argument (\<^verbatim>\<open>%r\<close> in quotes), \<^verbatim>\<open>%c\<close> takes it when it is one character
  long, a numeric conversion of a string is a TypeError, a percent sign followed by
  anything else or by nothing is a ValueError.
  An argument left over at the end is the TypeError "not all arguments converted
  during string formatting". Flags and field widths are not modelled.
\<close>

fun format_args :: "string \<Rightarrow> string list \<Rightarrow> error + string" where
  "format_args [] args = (if args = [] then Inr [] else Inl TypeError)"
| "format_args [c] args =
     (if c = CHR ''%'' then Inl ValueError
      else case format_args [] args of Inl e \<Rightarrow> Inl e | Inr r \<Rightarrow> Inr (c # r))"
| "format_args (c # d # cs) args =
     (if c \<noteq> CHR ''%'' then
        (case format_args (d # cs) args of Inl e \<Rightarrow> Inl e | Inr r \<Rightarrow> Inr (c # r))
      else if d = CHR ''%'' then
        (case format_args cs args of Inl e \<Rightarrow> Inl e | Inr r \<Rightarrow> Inr (CHR ''%'' # r))
      else if d = CHR ''s'' \<or> d = CHR ''r'' then
        (case args of
           [] \<Rightarrow> Inl TypeError
         | a # as \<Rightarrow>
             (case format_args cs as of
                Inl e \<Rightarrow> Inl e
              | Inr r \<Rightarrow> Inr ((if d = CHR ''r'' then [CHR 0x27] @ a @ [CHR 0x27] else a) @ r)))
      else if d = CHR ''c'' then
        (case args of
           [] \<Rightarrow> Inl TypeError
         | a # as \<Rightarrow>
             if length a \<noteq> 1 then Inl TypeError
             else (case format_args cs as of Inl e \<Rightarrow> Inl e | Inr r \<Rightarrow> Inr (a @ r)))
      else if d \<in> set ''diouxXeEfFgG'' then Inl TypeError
      else Inl ValueError)"

definition str_mod :: "string \<Rightarrow> string \<Rightarrow> error + string" where
  "str_mod fmt arg = format_args fmt [arg]"

text \<open>
  A class is its name and the names of its ancestors, nearest first (its method
  resolution order); every class considered here has \<^verbatim>\<open>Singleton\<close> among them. The
  state holds, for each class, the value of \<^verbatim>\<open>_instance\<close> in that class's own
  dictionary, when it has one (\<open>Some None\<close> is Python's \<^verbatim>\<open>None\<close>), the debug log, and the
  number of objects allocated. An object is its allocation number.
\<close>

record py_class =
  cls_name :: string
  cls_ancestors :: "string list"

record singleton_state =
  own_instance :: "string \<Rightarrow> nat option option"
  debug_log :: "string list"
  allocated :: nat

definition initial_state :: singleton_state where
  "initial_state =
     \<lparr> own_instance = (\<lambda>c. if c = ''Singleton'' then Some None else None),
       debug_log = [], allocated = 0 \<rparr>"

text \<open>\<^verbatim>\<open>cls._instance\<close>: the first class of the resolution order that has the attribute.\<close>

fun lookup_instance :: "(string \<Rightarrow> nat option option) \<Rightarrow> string list \<Rightarrow> error + nat option" where
  "lookup_instance own [] = Inl AttributeError"
| "lookup_instance own (c # cs) =
     (case own c of Some v \<Rightarrow> Inr v | None \<Rightarrow> lookup_instance own cs)"

text \<open>
  \<^verbatim>\<open>Singleton.__new__(cls)\<close>. The argument of \<^verbatim>\<open>_logger.debug\<close> is evaluated before the
  call, whatever the logging level; an exception leaves the state as it was.
\<close>

definition Singleton_new :: "py_class \<Rightarrow> singleton_state \<Rightarrow> (error + nat) \<times> singleton_state" where
  "Singleton_new cls s =
     (case lookup_instance (own_instance s) (cls_name cls # cls_ancestors cls) of
        Inl e \<Rightarrow> (Inl e, s)
      | Inr (Some obj) \<Rightarrow> (Inr obj, s)
      | Inr None \<Rightarrow>
          (case str_mod ''Creating singleton instance for class: '' (cls_name cls) of
             Inl e \<Rightarrow> (Inl e, s)
           | Inr msg \<Rightarrow>
               (Inr (allocated s),
                s \<lparr> own_instance := (own_instance s)(cls_name cls := Some (Some (allocated s))),
                    debug_log := debug_log s @ [msg],
                    allocated := Suc (allocated s) \<rparr>)))"

text \<open>A sequence of instantiations, each in the state the previous one left.\<close>

fun instantiate_all :: "py_class list \<Rightarrow> singleton_state \<Rightarrow> (error + nat) list \<times> singleton_state" where
  "instantiate_all [] s = ([], s)"
| "instantiate_all (cls # rest) s =
     (let (r, s') = Singleton_new cls s;
          (rs, s'') = instantiate_all rest s'
      in (r # rs, s''))"

definition is_singleton_class :: "py_class \<Rightarrow> bool" where
  "is_singleton_class cls = (''Singleton'' \<in> set (cls_name cls # cls_ancestors cls))"


section \<open>StateVector (bqskit/qis/state/state.py)\<close>

record state_vector =
  sv_vec :: "complex list"
  sv_dim :: nat
  sv_radixes :: "int list"
  sv_size :: nat

text \<open>
  A \<^verbatim>\<open>StateLike\<close> is a StateVector or a flat sequence of numbers, which \<^verbatim>\<open>np.array\<close> turns
  into a one-dimensional complex array.
\<close>

datatype state_like = FromState state_vector | FromSeq "complex list"

text \<open>
  \<^verbatim>\<open>np.allclose(a, b, rtol, atol)\<close> on scalars: \<^verbatim>\<open>|a - b| <= atol + rtol * |b|\<close>.
\<close>

definition allclose :: "real \<Rightarrow> real \<Rightarrow> real \<Rightarrow> real \<Rightarrow> bool" where
  "allclose a b rtol atol = (\<bar>a - b\<bar> \<le> atol + rtol * \<bar>b\<bar>)"

text \<open>\<^verbatim>\<open>np.sum(np.square(np.abs(V)))\<close>.\<close>

definition sum_sq :: "complex list \<Rightarrow> real" where
  "sum_sq V = sum_list (map (\<lambda>x. (cmod x)\<^sup>2) V)"

text \<open>
  \<^verbatim>\<open>is_pure_state\<close>. The helper \<^verbatim>\<open>is_vector\<close> of \<^verbatim>\<open>bqskit.utils.typing\<close> is not among the
  sources and is a parameter.
\<close>

definition is_pure_state :: "(complex list \<Rightarrow> bool) \<Rightarrow> state_like \<Rightarrow> real \<Rightarrow> bool" where
  "is_pure_state is_vector V tol =
     (case V of
        FromState _ \<Rightarrow> True
      | FromSeq xs \<Rightarrow>
          if \<not> is_vector xs then False
          else if \<not> allclose (sum_sq xs) 1 0 tol then False
          else True)"

text \<open>
  The constructor; \<^verbatim>\<open>is_valid_radixes\<close> is a parameter as well. The default tolerance is
  \<^verbatim>\<open>1e-8\<close>. On a power of two \<^verbatim>\<open>int(np.round(np.log2(dim)))\<close> is the exponent, and
  likewise for a power of three; \<open>n\<close> is the dimension.
\<close>

definition determine_radixes :: "int list \<Rightarrow> nat \<Rightarrow> error + int list" where
  "determine_radixes radixes n =
     (if radixes \<noteq> [] then Inr radixes
      else if and (int n) (int n - 1) = 0
        then Inr (replicate (nat (round (log 2 (real n)))) 2)
      else if 3 ^ nat (round (ln (real n) / ln 3)) = n
        then Inr (replicate (nat (round (ln (real n) / ln 3))) 3)
      else Inl TypeError)"

definition StateVector_init ::
  "(complex list \<Rightarrow> bool) \<Rightarrow> (int list \<Rightarrow> bool) \<Rightarrow> state_like \<Rightarrow> int list \<Rightarrow> error + state_vector" where
  "StateVector_init is_vector is_valid_radixes vec radixes =
     (case vec of
        FromState v \<Rightarrow>
          Inr \<lparr> sv_vec = sv_vec v, sv_dim = sv_dim v, sv_radixes = sv_radixes v, sv_size = sv_size v \<rparr>
      | FromSeq np_vec \<Rightarrow>
          if \<not> is_pure_state is_vector (FromSeq np_vec) (1 / 10 ^ 8) then Inl TypeError
          else
            (case determine_radixes radixes (length np_vec) of
               Inl e \<Rightarrow> Inl e
             | Inr rs \<Rightarrow>
                 if \<not> is_valid_radixes rs then Inl TypeError
                 else if prod_list rs \<noteq> int (length np_vec) then Inl ValueError
                 else Inr \<lparr> sv_vec = np_vec, sv_dim = length np_vec,
                            sv_radixes = rs, sv_size = length rs \<rparr>))"

text \<open>
  Modelled from the spec: \<^verbatim>\<open>is_vector\<close> and \<^verbatim>\<open>is_valid_radixes\<close> are not among the sources.
  These two instances serve where a concrete helper is needed: every one-dimensional
  array is a vector, and a radix is a state-space dimension, at least 2.
\<close>

definition is_vector_1d :: "complex list \<Rightarrow> bool" where
  "is_vector_1d V = True"

definition is_valid_radixes_spec :: "int list \<Rightarrow> bool" where
  "is_valid_radixes_spec rs = list_all (\<lambda>r. 2 \<le> r) rs"


section \<open>Matrices (numpy arrays)\<close>

text \<open>
  The numpy operations the variable-location gate uses, on matrices as lists of rows.
  An operation that numpy refuses for the shapes of its operands returns \<open>ShapeError\<close>.
\<close>

definition n_rows :: "matrix \<Rightarrow> nat" where
  "n_rows A = length A"

definition n_cols :: "matrix \<Rightarrow> nat" where
  "n_cols A = (case A of [] \<Rightarrow> 0 | r # _ \<Rightarrow> length r)"

text \<open>\<^verbatim>\<open>np.identity(n)\<close>.\<close>

fun identity :: "nat \<Rightarrow> matrix" where
  "identity 0 = []"
| "identity (Suc n) = (1 # replicate n 0) # map (\<lambda>r. 0 # r) (identity n)"

text \<open>\<^verbatim>\<open>A.T\<close>: the list of the columns of a matrix with at least one row.\<close>

fun mat_T :: "matrix \<Rightarrow> matrix" where
  "mat_T [] = []"
| "mat_T [r] = map (\<lambda>x. [x]) r"
| "mat_T (r # rs) = map2 (\<lambda>x col. x # col) r (mat_T rs)"

definition dot :: "complex list \<Rightarrow> complex list \<Rightarrow> complex" where
  "dot u v = sum_list (map2 (\<lambda>x y. x * y) u v)"

text \<open>\<^verbatim>\<open>A @ B\<close>: the columns of \<open>A\<close> must be as many as the rows of \<open>B\<close>.\<close>

definition matmul :: "matrix \<Rightarrow> matrix \<Rightarrow> error + matrix" where
  "matmul A B =
     (if n_cols A \<noteq> n_rows B then Inl ShapeError
      else Inr (map (\<lambda>row. map (\<lambda>col. dot row col) (mat_T B)) A))"

text \<open>\<^verbatim>\<open>np.kron(A, B)\<close>.\<close>

definition kron :: "matrix \<Rightarrow> matrix \<Rightarrow> matrix" where
  "kron A B = concat (map (\<lambda>a. map (\<lambda>b. concat (map (\<lambda>x. map (\<lambda>y. x * y) b) a)) B) A)"

text \<open>A scalar times a matrix; sum and difference of two matrices of one shape.\<close>

definition scale :: "complex \<Rightarrow> matrix \<Rightarrow> matrix" where
  "scale c A = map (map (\<lambda>x. c * x)) A"

definition mat_add :: "matrix \<Rightarrow> matrix \<Rightarrow> error + matrix" where
  "mat_add A B =
     (if n_rows A \<noteq> n_rows B \<or> n_cols A \<noteq> n_cols B then Inl ShapeError
      else Inr (map2 (map2 (\<lambda>x y. x + y)) A B))"

definition mat_sub :: "matrix \<Rightarrow> matrix \<Rightarrow> error + matrix" where
  "mat_sub A B =
     (if n_rows A \<noteq> n_rows B \<or> n_cols A \<noteq> n_cols B then Inl ShapeError
      else Inr (map2 (map2 (\<lambda>x y. x - y)) A B))"

text \<open>
  \<^verbatim>\<open>np.sum(Ms, 0)\<close> for a non-empty list of matrices of one shape: their sum. (The empty
  list, whose sum is the number 0, does not reach this call: the gate has at least one
  location.)
\<close>

fun sum_axis0 :: "matrix list \<Rightarrow> error + matrix" where
  "sum_axis0 [] = Inl ShapeError"
| "sum_axis0 [M] = Inr M"
| "sum_axis0 (M # Ms) =
     (case sum_axis0 Ms of Inl e \<Rightarrow> Inl e | Inr S \<Rightarrow> mat_add M S)"

text \<open>A call that may raise, over a list, stopping at the first exception.\<close>

fun map_err :: "('a \<Rightarrow> error + 'b) \<Rightarrow> 'a list \<Rightarrow> error + 'b list" where
  "map_err f [] = Inr []"
| "map_err f (x # xs) =
     (case f x of
        Inl e \<Rightarrow> Inl e
      | Inr y \<Rightarrow> (case map_err f xs of Inl e \<Rightarrow> Inl e | Inr ys \<Rightarrow> Inr (y # ys)))"

text \<open>The conjugate transpose, and being unitary: \<open>U U\<^sup>\<dagger> = I\<close>.\<close>

definition dagger :: "matrix \<Rightarrow> matrix" where
  "dagger A = map (map cnj) (mat_T A)"

definition is_unitary :: "matrix \<Rightarrow> bool" where
  "is_unitary U = (matmul U (dagger U) = Inr (identity (n_rows U)))"

text \<open>
  Modelled from the spec: \<^verbatim>\<open>bqskit.utils.math.softmax\<close> is not among the sources. The spec
  calls it a temperature-scaled softmax: the weights \<open>exp (beta * x\<^sub>i)\<close>, normalised to
  sum 1.
\<close>

definition softmax :: "real list \<Rightarrow> real \<Rightarrow> real list" where
  "softmax x beta = map (\<lambda>xi. exp (beta * xi) / sum_list (map (\<lambda>xj. exp (beta * xj)) x)) x"

text \<open>
  \<^verbatim>\<open>np.argmax\<close> of a one-dimensional array: the first index of a maximal element;
  the empty array raises ValueError. The loop keeps the best index and value so far.
\<close>

fun argmax_from :: "nat \<Rightarrow> real \<Rightarrow> nat \<Rightarrow> real list \<Rightarrow> nat" where
  "argmax_from best_i best_v i [] = best_i"
| "argmax_from best_i best_v i (x # xs) =
     (if best_v < x then argmax_from i x (Suc i) xs
      else argmax_from best_i best_v (Suc i) xs)"

definition argmax :: "real list \<Rightarrow> error + nat" where
  "argmax xs = (case xs of [] \<Rightarrow> Inl ValueError | x # rest \<Rightarrow> Inr (argmax_from 0 x 1 rest))"

text \<open>
  Modelled from the spec: \<^verbatim>\<open>PermutationMatrix.from_qubit_location\<close> is not among the
  sources. It takes the number of qubits and a location, so its matrix has dimension
  \<open>2 ^ num_qubits\<close>; following the spec it is the permutation matrix that carries the
  ordering with the location's qubits first, the other qubits after them in ascending
  order, to the register ordering. The bits of an index are listed most significant
  first.
\<close>

definition bits_of :: "nat \<Rightarrow> nat \<Rightarrow> nat list" where
  "bits_of n x = map (\<lambda>i. (x div 2 ^ (n - 1 - i)) mod 2) [0..<n]"

definition of_bits :: "nat list \<Rightarrow> nat" where
  "of_bits bs = foldl (\<lambda>acc b. 2 * acc + b) 0 bs"

definition qubit_order :: "nat \<Rightarrow> nat list \<Rightarrow> nat list" where
  "qubit_order n location = location @ filter (\<lambda>q. q \<notin> set location) [0..<n]"

definition unit_row :: "nat \<Rightarrow> nat \<Rightarrow> complex list" where
  "unit_row n c = map (\<lambda>j. if j = c then 1 else 0) [0..<n]"

definition from_qubit_location :: "nat \<Rightarrow> nat list \<Rightarrow> matrix" where
  "from_qubit_location num_qubits location =
     map (\<lambda>r. unit_row (2 ^ num_qubits)
                 (of_bits (map (\<lambda>q. bits_of num_qubits r ! q) (qubit_order num_qubits location))))
         [0..<2 ^ num_qubits]"


section \<open>VariableLocationGate (bqskit/ir/gates/composed/varloc.py)\<close>

text \<open>
  A location is a tuple of qudit indices, positions of a register, hence natural
  numbers. \<^verbatim>\<open>is_valid_location\<close> is not among the sources and is a parameter of the
  constructor.
\<close>

record variable_location_gate =
  vlg_gate :: gate
  vlg_size :: nat
  vlg_locations :: "nat list list"
  vlg_radixes :: "nat list"
  vlg_num_params :: nat
  vlg_extension_size :: int
  vlg_I :: matrix
  vlg_perms :: "matrix list"

text \<open>\<^verbatim>\<open>max\<close> of a sequence; the empty sequence raises ValueError.\<close>

definition py_max :: "nat list \<Rightarrow> error + nat" where
  "py_max xs = (case xs of [] \<Rightarrow> Inl ValueError | x # rest \<Rightarrow> Inr (fold max rest x))"

text \<open>
  \<^verbatim>\<open>radix_map\<close> has the keys \<open>0, \<dots>, size - 1\<close> in this order: it is the list of its
  values, \<open>None\<close> for Python's \<^verbatim>\<open>None\<close>. Reading a key it does not have raises KeyError.
  \<open>assign_radixes\<close> is the inner loop, over the pairs of \<^verbatim>\<open>zip(gate.get_radixes(), l)\<close>,
  and \<open>assign_locations\<close> the outer one.
\<close>

fun assign_radixes :: "(nat \<times> nat) list \<Rightarrow> nat option list \<Rightarrow> error + nat option list" where
  "assign_radixes [] radix_map = Inr radix_map"
| "assign_radixes ((radix, qudit_index) # rest) radix_map =
     (if \<not> qudit_index < length radix_map then Inl KeyError
      else case radix_map ! qudit_index of
        None \<Rightarrow> assign_radixes rest (radix_map[qudit_index := Some radix])
      | Some r \<Rightarrow> if r \<noteq> radix then Inl ValueError else assign_radixes rest radix_map)"

fun assign_locations :: "nat list \<Rightarrow> nat list list \<Rightarrow> nat option list \<Rightarrow> error + nat option list" where
  "assign_locations radixes [] radix_map = Inr radix_map"
| "assign_locations radixes (l # ls) radix_map =
     (case assign_radixes (zip radixes l) radix_map of
        Inl e \<Rightarrow> Inl e
      | Inr radix_map' \<Rightarrow> assign_locations radixes ls radix_map')"

text \<open>A radix still undetermined after the loops becomes 2.\<close>

definition default_radix :: "nat option \<Rightarrow> nat" where
  "default_radix r = (case r of None \<Rightarrow> 2 | Some x \<Rightarrow> x)"

text \<open>
  The constructor. \<^verbatim>\<open>2 ** extension_size\<close> is a float when the exponent is negative, and
  \<^verbatim>\<open>np.identity\<close> of a float raises TypeError.
\<close>

definition VariableLocationGate_init ::
  "(nat list \<Rightarrow> bool) \<Rightarrow> gate \<Rightarrow> nat list list \<Rightarrow> error + variable_location_gate" where
  "VariableLocationGate_init is_valid_location g locations =
     (if \<not> list_all is_valid_location locations then Inl TypeError
      else if \<not> list_all (\<lambda>l. length l = get_size g) locations then Inl ValueError
      else if length locations < 1 then Inl ValueError
      else
        (case map_err py_max locations of
           Inl e \<Rightarrow> Inl e
         | Inr maxes \<Rightarrow>
        (case py_max maxes of
           Inl e \<Rightarrow> Inl e
         | Inr m \<Rightarrow>
        (let size = m + 1 in
        (case assign_locations (get_radixes g) locations (replicate size None) of
           Inl e \<Rightarrow> Inl e
         | Inr radix_map \<Rightarrow>
        (let extension_size = int size - int (get_size g) in
         if extension_size < 0 then Inl TypeError
         else Inr \<lparr> vlg_gate = g,
                    vlg_size = size,
                    vlg_locations = locations,
                    vlg_radixes = map default_radix radix_map,
                    vlg_num_params = get_num_params g + length locations,
                    vlg_extension_size = extension_size,
                    vlg_I = identity (2 ^ nat extension_size),
                    vlg_perms = map (from_qubit_location size) locations \<rparr>))))))"

definition split_params :: "variable_location_gate \<Rightarrow> real list \<Rightarrow> real list \<times> real list" where
  "split_params v params =
     (take (get_num_params (vlg_gate v)) params, drop (get_num_params (vlg_gate v)) params)"

text \<open>\<^verbatim>\<open>get_location\<close>; an index beyond the list of locations raises IndexError.\<close>

definition get_location :: "variable_location_gate \<Rightarrow> real list \<Rightarrow> error + nat list" where
  "get_location v params =
     (case argmax (snd (split_params v params)) of
        Inl e \<Rightarrow> Inl e
      | Inr idx \<Rightarrow>
          if idx < length (vlg_locations v) then Inr (vlg_locations v ! idx)
          else Inl IndexError)"

text \<open>
  The matrix \<open>P\<close> of both evaluation methods: \<^verbatim>\<open>zip\<close> pairs the softmax weights with the
  permutation matrices, each product is a scalar times a matrix, and the products are
  summed.
\<close>

definition weighted_perms :: "real list \<Rightarrow> matrix list \<Rightarrow> error + matrix" where
  "weighted_perms l perms =
     sum_axis0 (map (\<lambda>(a, s). scale (complex_of_real a) s) (zip l perms))"

text \<open>
  \<^verbatim>\<open>get_unitary\<close>. \<^verbatim>\<open>UnitaryMatrix.closest_to\<close> is not among the sources and is a
  parameter; it receives the matrix and the radixes of the gate. The product
  \<^verbatim>\<open>P @ K @ P.T\<close> is \<^verbatim>\<open>(P @ K) @ P.T\<close>.
\<close>

definition vlg_get_unitary ::
  "(matrix \<Rightarrow> nat list \<Rightarrow> error + matrix) \<Rightarrow> variable_location_gate \<Rightarrow> real list \<Rightarrow> error + matrix" where
  "vlg_get_unitary closest_to v params =
     (case check_parameters (vlg_num_params v) params of
        Inl e \<Rightarrow> Inl e
      | Inr _ \<Rightarrow>
     (let (a, l) = split_params v params;
          l = softmax l 10
      in
     (case weighted_perms l (vlg_perms v) of
        Inl e \<Rightarrow> Inl e
      | Inr P \<Rightarrow>
     (case gate_get_unitary (vlg_gate v) a of
        Inl e \<Rightarrow> Inl e
      | Inr G \<Rightarrow>
     (case matmul P (kron G (vlg_I v)) of
        Inl e \<Rightarrow> Inl e
      | Inr PK \<Rightarrow>
     (case matmul PK (mat_T P) of
        Inl e \<Rightarrow> Inl e
      | Inr PGPT \<Rightarrow> closest_to PGPT (vlg_radixes v)))))))"

text \<open>
  \<^verbatim>\<open>get_unitary_and_grad\<close>. The operations on the stacks \<^verbatim>\<open>dG\<close> and \<^verbatim>\<open>perm_array\<close> act on
  each matrix of the stack; \<^verbatim>\<open>np.concatenate\<close> appends the two stacks. The first
  component of the result is \<^verbatim>\<open>PGPT\<close> itself. When the subgate's gradient has one or
  two axes, \<^verbatim>\<open>np.kron(dG, I)\<close> has two axes: either one of the products with \<open>P\<close> and
  \<^verbatim>\<open>P.T\<close> has operands of incompatible shapes, or \<^verbatim>\<open>np.concatenate\<close> is given an array of
  two axes and one of three; in both cases numpy raises its shape error. The empty
  stack \<open>Array3 []\<close> carries no matrix dimension, and its products are taken to succeed.
\<close>

definition vlg_get_unitary_and_grad ::
  "variable_location_gate \<Rightarrow> real list \<Rightarrow> error + matrix \<times> matrix list" where
  "vlg_get_unitary_and_grad v params =
     (case check_parameters (vlg_num_params v) params of
        Inl e \<Rightarrow> Inl e
      | Inr _ \<Rightarrow>
     (let (a, l) = split_params v params;
          l = softmax l 10
      in
     (case weighted_perms l (vlg_perms v) of
        Inl e \<Rightarrow> Inl e
      | Inr P \<Rightarrow>
     (case gate_get_unitary (vlg_gate v) a of
        Inl e \<Rightarrow> Inl e
      | Inr U \<Rightarrow>
     (let G = kron U (vlg_I v) in
     (case matmul P G of
        Inl e \<Rightarrow> Inl e
      | Inr PG \<Rightarrow>
     (case matmul G (mat_T P) of
        Inl e \<Rightarrow> Inl e
      | Inr GPT \<Rightarrow>
     (case matmul P GPT of
        Inl e \<Rightarrow> Inl e
      | Inr PGPT \<Rightarrow>
     (case gate_get_grad (vlg_gate v) a of
        Inl e \<Rightarrow> Inl e
      | Inr (Array1 _) \<Rightarrow> Inl ShapeError
      | Inr (Array2 _) \<Rightarrow> Inl ShapeError
      | Inr (Array3 dG0) \<Rightarrow>
     (case map_err (\<lambda>D. case matmul P (kron D (vlg_I v)) of
                           Inl e \<Rightarrow> Inl e
                         | Inr PD \<Rightarrow> matmul PD (mat_T P)) dG0 of
        Inl e \<Rightarrow> Inl e
      | Inr dG \<Rightarrow>
     (case map_err (\<lambda>perm.
              case matmul perm GPT of
                Inl e \<Rightarrow> Inl e
              | Inr A \<Rightarrow>
             (case matmul PG (mat_T perm) of
                Inl e \<Rightarrow> Inl e
              | Inr B \<Rightarrow>
             (case mat_add A B of
                Inl e \<Rightarrow> Inl e
              | Inr AB \<Rightarrow> mat_sub AB (scale 2 PGPT)))) (vlg_perms v) of
        Inl e \<Rightarrow> Inl e
      | Inr dP0 \<Rightarrow>
          Inr (PGPT,
               dG @ map (\<lambda>(x, y). scale (complex_of_real (10 * x)) y) (zip l dP0)))))))))))))"

text \<open>The first component of a result that is a pair.\<close>

definition first_of :: "error + 'a \<times> 'b \<Rightarrow> error + 'a" where
  "first_of r = (case r of Inl e \<Rightarrow> Inl e | Inr p \<Rightarrow> Inr (fst p))"

text \<open>
  The gate that multiplexes U2 over the two qubits of a two-qubit register, as the
  constructor builds it from the locations \<open>(0)\<close> and \<open>(1)\<close>.
\<close>

definition example_vlg :: variable_location_gate where
  "example_vlg =
     \<lparr> vlg_gate = U2Gate, vlg_size = 2, vlg_locations = [[0], [1]], vlg_radixes = [2, 2],
       vlg_num_params = 4, vlg_extension_size = 1, vlg_I = identity 2,
       vlg_perms = [from_qubit_location 2 [0], from_qubit_location 2 [1]] \<rparr>"

text \<open>
  A constant gate on one qutrit, the identity: no parameters, radix 3, the empty array
  as gradient.
\<close>

definition qutrit_identity_gate :: gate where
  "qutrit_identity_gate =
     \<lparr> get_num_params = 0, get_size = 1, get_radixes = [3],
       gate_get_unitary = (\<lambda>p. case check_parameters 0 p of
                                  Inl e \<Rightarrow> Inl e
                                | Inr _ \<Rightarrow> Inr (identity 3)),
       gate_get_grad = (\<lambda>p. case check_parameters 0 p of
                               Inl e \<Rightarrow> Inl e
                             | Inr _ \<Rightarrow> Inr (Array1 [])) \<rparr>"

text \<open>
  Two candidates give one register position different radixes: position \<open>q\<close> is entry
  \<open>i\<close> of one candidate and entry \<open>j\<close> of another, and the subgate's radixes at \<open>i\<close> and
  \<open>j\<close> differ.
\<close>

definition radix_conflict :: "nat list \<Rightarrow> nat list list \<Rightarrow> bool" where
  "radix_conflict radixes locations =
     (\<exists>l1\<in>set locations. \<exists>l2\<in>set locations.
        \<exists>i<min (length l1) (length radixes). \<exists>j<min (length l2) (length radixes).
          l1 ! i = l2 ! j \<and> radixes ! i \<noteq> radixes ! j)"

text \<open>A constant gate on a qubit and a qutrit, the identity of dimension 6.\<close>

definition qubit_qutrit_identity_gate :: gate where
  "qubit_qutrit_identity_gate =
     \<lparr> get_num_params = 0, get_size = 2, get_radixes = [2, 3],
       gate_get_unitary = (\<lambda>p. case check_parameters 0 p of
                                  Inl e \<Rightarrow> Inl e
                                | Inr _ \<Rightarrow> Inr (identity 6)),
       gate_get_grad = (\<lambda>p. case check_parameters 0 p of
                               Inl e \<Rightarrow> Inl e
                             | Inr _ \<Rightarrow> Inr (Array1 [])) \<rparr>"

text \<open>A matrix of \<open>r\<close> rows that all have \<open>c\<close> entries.\<close>

definition is_shape :: "nat \<Rightarrow> nat \<Rightarrow> matrix \<Rightarrow> bool" where
  "is_shape r c M = (length M = r \<and> list_all (\<lambda>row. length row = c) M)"

text \<open>
  The variable-location gate over the qutrit identity with the candidates \<open>(0)\<close> and
  \<open>(1)\<close>, as the constructor builds it: declared radixes \<open>(3, 3)\<close>, a pad of dimension 2.
\<close>

definition qutrit_vlg :: variable_location_gate where
  "qutrit_vlg =
     \<lparr> vlg_gate = qutrit_identity_gate, vlg_size = 2, vlg_locations = [[0], [1]],
       vlg_radixes = [3, 3], vlg_num_params = 2, vlg_extension_size = 1, vlg_I = identity 2,
       vlg_perms = [from_qubit_location 2 [0], from_qubit_location 2 [1]] \<rparr>"

text \<open>
  The matrix \<open>P\<close> of two equally weighted candidates \<open>(0)\<close> and \<open>(1)\<close> on two qubits: half
  the identity plus half the swap. And the product \<^verbatim>\<open>P @ kron(G, I) @ P.T\<close> for the U2 gate at
  parameters 0, whose entries are all \<^verbatim>\<open>s = sqrt(2)/2\<close> up to sign.
\<close>

definition half_swap :: matrix where
  "half_swap = [[1, 0, 0, 0], [0, 1 / 2, 1 / 2, 0], [0, 1 / 2, 1 / 2, 0], [0, 0, 0, 1]]"

definition PGPT0 :: "complex \<Rightarrow> matrix" where
  "PGPT0 s = [[s, - (s / 2), - (s / 2), 0],
              [s / 2, s / 2, s / 2, - (s / 2)],
              [s / 2, s / 2, s / 2, - (s / 2)],
              [0, s / 2, s / 2, s]]"


section \<open>Properties of FrozenParameterGate\<close>

lemma list_insert_nat:
  "k \<le> length xs \<Longrightarrow> list_insert xs (int k) v = take k xs @ v # drop k xs"
  by (simp add: list_insert_def Let_def min_def)

lemma unfixed_of_insert:
  assumes "k \<le> length r" "\<forall>j\<in>K. j < k"
  shows "unfixed_of (take k r @ v # drop k r) (insert k K) = unfixed_of r K"
proof -
  let ?r = "take k r @ v # drop k r"
  have len: "length ?r = Suc (length r)" using assms by simp
  have split1: "[0..<Suc (length r)] = [0..<k] @ k # [Suc k..<Suc (length r)]"
    using assms(1) by (metis le_imp_less_Suc upt_conv_Cons upt_add_eq_append le0 le_iff_add less_imp_le_nat) 
  have split2: "[0..<length r] = [0..<k] @ [k..<length r]"
    using assms(1) by (metis le0 le_iff_add  upt_add_eq_append) 
  have a: "map (\<lambda>i. ?r ! i) (filter (\<lambda>i. i \<notin> insert k K) [0..<k]) = map (\<lambda>i. r ! i) (filter (\<lambda>i. i \<notin> K) [0..<k])"
    using assms(1) by (auto intro!: map_cong filter_cong simp: nth_append)
  have b: "filter (\<lambda>i. i \<notin> insert k K) [Suc k..<Suc (length r)] = [Suc k..<Suc (length r)]"
    using assms(2) by (auto simp: filter_id_conv)
  have c: "filter (\<lambda>i. i \<notin> K) [k..<length r] = [k..<length r]"
    using assms(2) by (auto simp: filter_id_conv)
  have d: "map (\<lambda>i. ?r ! i) [Suc k..<Suc (length r)] = map (\<lambda>i. r ! i) [k..<length r]"
    using assms(1) by (simp add: map_Suc_upt[symmetric] nth_append min_def del: upt_Suc) 
  have e: "filter (\<lambda>i. i \<notin> insert k K) ([0..<k] @ k # [Suc k..<Suc (length r)])
      = filter (\<lambda>i. i \<notin> insert k K) [0..<k] @ filter (\<lambda>i. i \<notin> insert k K) [Suc k..<Suc (length r)]"
    by simp
  have f: "filter (\<lambda>i. i \<notin> K) ([0..<k] @ [k..<length r])
      = filter (\<lambda>i. i \<notin> K) [0..<k] @ filter (\<lambda>i. i \<notin> K) [k..<length r]"
    by simp
  have "unfixed_of ?r (insert k K) = map (\<lambda>i. ?r ! i) (filter (\<lambda>i. i \<notin> insert k K) [0..<k]) @ map (\<lambda>i. ?r ! i) [Suc k..<Suc (length r)]"
    unfolding unfixed_of_def len split1 e b map_append ..
  also have "\<dots> = map (\<lambda>i. r ! i) (filter (\<lambda>i. i \<notin> K) [0..<k]) @ map (\<lambda>i. r ! i) [k..<length r]"
    unfolding a d ..
  also have "\<dots> = unfixed_of r K"
    unfolding unfixed_of_def by (subst split2) (simp only: f c map_append)
  finally show ?thesis .
qed


lemma insert_fixed_snoc:
  "insert_fixed d (ks @ [k]) xs =
     (case insert_fixed d ks xs of
        Inl e \<Rightarrow> Inl e
      | Inr r \<Rightarrow> (case map_of d k of None \<Rightarrow> Inl KeyError | Some v \<Rightarrow> Inr (list_insert r k v)))"
  by (induction ks arbitrary: xs) (auto split: option.splits)

lemma insert_fixed_sorted:
  assumes "sorted ks" "distinct ks"
    and "\<forall>k\<in>set ks. 0 \<le> k \<and> k < int (length xs + length ks)"
    and "\<forall>k\<in>set ks. map_of d k \<noteq> None"
  shows "\<exists>r. insert_fixed d ks xs = Inr r \<and> length r = length xs + length ks
           \<and> (\<forall>k\<in>set ks. map_of d k = Some (r ! nat k))
           \<and> unfixed_of r (nat ` set ks) = xs"
  using assms
proof (induction ks rule: rev_induct)
  case Nil
  show ?case by (simp add: unfixed_of_def map_nth)
next
  case (snoc k ks)
  have below: "\<forall>j\<in>set ks. j < k"
    using snoc.prems(1,2) by (auto simp: sorted_append less_le)
  have kb: "0 \<le> k" "k \<le> int (length xs + length ks)"
    using snoc.prems(3) by auto
  have "\<forall>j\<in>set ks. 0 \<le> j \<and> j < int (length xs + length ks)"
    using below kb snoc.prems(3) by fastforce
  with snoc.IH snoc.prems obtain r where r: "insert_fixed d ks xs = Inr r"
      "length r = length xs + length ks"
      "\<forall>j\<in>set ks. map_of d j = Some (r ! nat j)"
      "unfixed_of r (nat ` set ks) = xs"
    by (auto simp: sorted_append)
  obtain v where v: "map_of d k = Some v"
    using snoc.prems(4) by auto
  have kn: "nat k \<le> length r" using kb r(2) by simp
  let ?r = "take (nat k) r @ v # drop (nat k) r"
  have ins: "list_insert r k v = ?r"
    using list_insert_nat[OF kn, of v] kb(1) by simp
  have res: "insert_fixed d (ks @ [k]) xs = Inr ?r"
    by (simp add: insert_fixed_snoc r(1) v ins)
  have len: "length ?r = length xs + length (ks @ [k])"
    using kn r(2) by simp
  have old: "\<forall>j\<in>set ks. ?r ! nat j = r ! nat j"
  proof
    fix j assume "j \<in> set ks"
    then have "nat j < nat k" using below kb snoc.prems(3) by fastforce
    then show "?r ! nat j = r ! nat j" using kn by (simp add: nth_append)
  qed
  have new: "?r ! nat k = v" using kn by (simp add: nth_append)
  have "\<forall>j\<in>nat ` set ks. j < nat k"
    using below kb snoc.prems(3) by fastforce
  from unfixed_of_insert[OF kn this, of v]
  have unf: "unfixed_of ?r (nat ` set (ks @ [k])) = xs"
    using r(4) by simp
  show ?case
    unfolding res using len old new r(3) v unf by auto
qed


lemma FrozenParameterGate_init_Inr:
  assumes "FrozenParameterGate_init g fixed_params = Inr fg"
  shows "length fixed_params \<le> get_num_params g"
    and "\<forall>k\<in>set (map fst fixed_params). 0 \<le> k \<and> k < int (get_num_params g)"
    and "fg_gate fg = g"
    and "fg_num_params fg = get_num_params g - length fixed_params"
    and "fg_fixed_params fg = fixed_params"
    and "fg_unfixed_param_idxs fg =
           filter (\<lambda>i. int i \<notin> set (map fst fixed_params)) [0..<get_num_params g]"
    and "fg_size fg = get_size g" and "fg_radixes fg = get_radixes g"
  using assms
  by (auto simp: FrozenParameterGate_init_def Let_def list_all_iff split: if_splits)

lemma unfixed_idxs_nat:
  assumes "\<forall>k\<in>K. (0::int) \<le> k"
  shows "filter (\<lambda>i. int i \<notin> K) [0..<n] = filter (\<lambda>i. i \<notin> nat ` K) [0..<n]"
proof (rule filter_cong[OF refl])
  fix i
  show "(int i \<notin> K) = (i \<notin> nat ` K)"
  proof
    assume "int i \<notin> K"
    show "i \<notin> nat ` K"
    proof
      assume "i \<in> nat ` K"
      then obtain k where "k \<in> K" "i = nat k" by auto
      with assms have "int i = k" by simp
      with \<open>k \<in> K\<close> \<open>int i \<notin> K\<close> show False by simp
    qed
  next
    assume "i \<notin> nat ` K"
    then show "int i \<notin> K" by (metis image_eqI nat_int)
  qed
qed

lemma get_full_params_frozen:
  assumes ok: "dict_ok fixed_params"
    and init: "FrozenParameterGate_init g fixed_params = Inr fg"
    and len: "length free = get_num_params g - length fixed_params"
  shows "\<exists>full. get_full_params fg free = Inr full
           \<and> length full = get_num_params g
           \<and> (\<forall>(k, v)\<in>set fixed_params. full ! nat k = v)
           \<and> map (\<lambda>i. full ! i) (fg_unfixed_param_idxs fg) = free"
proof -
  note I = FrozenParameterGate_init_Inr[OF init]
  let ?ks = "sort (map fst fixed_params)"
  have n: "length free + length ?ks = get_num_params g"
    using len I(1) by simp
  have s1: "sorted ?ks" and s2: "distinct ?ks"
    using ok by (simp_all add: dict_ok_def)
  have s3: "\<forall>k\<in>set ?ks. 0 \<le> k \<and> k < int (length free + length ?ks)"
    unfolding n using I(2) by simp
  have s4: "\<forall>k\<in>set ?ks. map_of fixed_params k \<noteq> None"
    by (auto simp: map_of_eq_None_iff)
  from insert_fixed_sorted[OF s1 s2 s3 s4]
  obtain r where r: "insert_fixed fixed_params ?ks free = Inr r"
      "length r = length free + length ?ks"
      "\<forall>k\<in>set ?ks. map_of fixed_params k = Some (r ! nat k)"
      "unfixed_of r (nat ` set ?ks) = free"
    by blast
  have g: "get_full_params fg free = Inr r"
    using r(1) len by (simp add: get_full_params_def check_parameters_def I(4,5))
  have l: "length r = get_num_params g" using r(2) n by simp
  have fx: "\<forall>(k, v)\<in>set fixed_params. r ! nat k = v"
  proof (clarify)
    fix k v assume kv: "(k, v) \<in> set fixed_params"
    then have "map_of fixed_params k = Some v"
      using ok by (simp add: dict_ok_def)
    moreover have "k \<in> set ?ks" using kv by force
    ultimately show "r ! nat k = v" using r(3) by auto
  qed
  have "fg_unfixed_param_idxs fg = filter (\<lambda>i. i \<notin> nat ` set ?ks) [0..<length r]"
    unfolding I(6) l using unfixed_idxs_nat[of "set (map fst fixed_params)"] I(2) by simp
  then have un: "map (\<lambda>i. r ! i) (fg_unfixed_param_idxs fg) = free"
    using r(4) by (simp add: unfixed_of_def)
  show ?thesis using g l fx un by blast
qed

lemma length_unfixed_idxs:
  assumes "distinct ks" "\<forall>k\<in>set ks. 0 \<le> k \<and> k < int n"
  shows "length (filter (\<lambda>i. int i \<notin> set ks) [0..<n]) = n - length ks"
proof -
  have "length (filter (\<lambda>i. int i \<in> set ks) [0..<n]) = card ({i. int i \<in> set ks} \<inter> {0..<n})"
    by (simp add: distinct_length_filter)
  also have "{i. int i \<in> set ks} \<inter> {0..<n} = nat ` set ks"
    using assms(2) by (auto simp: image_iff) (metis nat_int)
  also have "card (nat ` set ks) = card (set ks)"
    using assms(2) by (intro card_image inj_onI) (metis int_nat_eq)
  also have "\<dots> = length ks" using assms(1) by (simp add: distinct_card)
  finally have "length (filter (\<lambda>i. int i \<in> set ks) [0..<n]) = length ks" .
  moreover have "length (filter (\<lambda>i. int i \<in> set ks) [0..<n])
      + length (filter (\<lambda>i. \<not> int i \<in> set ks) [0..<n]) = length [0..<n]"
    by (rule sum_length_filter_compl)
  ultimately show ?thesis by simp
qed

text \<open>
  Claim C1. For a FrozenParameterGate built from a subgate with \<open>n\<close> parameters and a fixed
  map of size \<open>f\<close>, and every free-parameter vector of length \<open>n - f\<close>, \<^verbatim>\<open>get_full_params\<close>
  returns a vector of length \<open>n\<close> that holds each fixed value at its own index and the free
  values, in their given order, at the unfixed indices. For a three-parameter subgate with
  index 1 fixed to 0.5 the gate has two parameters and \<^verbatim>\<open>get_full_params([a, b])\<close> is
  \<^verbatim>\<open>[a, 0.5, b]\<close>.
\<close>

theorem get_full_params_correct:
  assumes "dict_ok fixed_params"
    and "FrozenParameterGate_init g fixed_params = Inr fg"
    and "length free = get_num_params g - length fixed_params"
  shows "(\<exists>full. get_full_params fg free = Inr full
            \<and> length full = get_num_params g
            \<and> (\<forall>(k, v)\<in>set fixed_params. full ! nat k = v)
            \<and> map (\<lambda>i. full ! i) (fg_unfixed_param_idxs fg) = free)
         \<and> (get_num_params g = 3 \<and> fixed_params = [(1, 1 / 2)] \<longrightarrow>
              fg_num_params fg = 2 \<and> (\<forall>a b. get_full_params fg [a, b] = Inr [a, 1 / 2, b]))"
proof
  show "\<exists>full. get_full_params fg free = Inr full
            \<and> length full = get_num_params g
            \<and> (\<forall>(k, v)\<in>set fixed_params. full ! nat k = v)
            \<and> map (\<lambda>i. full ! i) (fg_unfixed_param_idxs fg) = free"
    by (rule get_full_params_frozen[OF assms])
next
  note I = FrozenParameterGate_init_Inr[OF assms(2)]
  show "get_num_params g = 3 \<and> fixed_params = [(1, 1 / 2)] \<longrightarrow>
          fg_num_params fg = 2 \<and> (\<forall>a b. get_full_params fg [a, b] = Inr [a, 1 / 2, b])"
    by (simp add: get_full_params_def check_parameters_def I(4,5) list_insert_def)
qed

text \<open>The scenario of the spec on the three-parameter gate, through the theorem.\<close>

theorem get_full_params_correct_witness:
  "dict_ok [(1, 1 / 2)]
   \<and> (\<exists>fg. FrozenParameterGate_init test_gate3 [(1, 1 / 2)] = Inr fg
         \<and> fg_num_params fg = 2
         \<and> get_full_params fg [7, 9] = Inr [7, 1 / 2, 9])"
proof -
  obtain fg where fg: "FrozenParameterGate_init test_gate3 [(1, 1 / 2)] = Inr fg"
    by (simp add: FrozenParameterGate_init_def test_gate3_def)
  have d: "dict_ok [(1, 1 / 2)]" by (simp add: dict_ok_def)
  have l: "length [7, 9 :: real] = get_num_params test_gate3 - length [(1 :: int, 1 / 2 :: real)]"
    by (simp add: test_gate3_def)
  have n: "get_num_params test_gate3 = 3" by (simp add: test_gate3_def)
  from get_full_params_correct[OF d fg l] n
  have "fg_num_params fg = 2 \<and> get_full_params fg [7, 9] = Inr [7, 1 / 2, 9]" by blast
  with d fg show ?thesis by blast
qed

text \<open>
  Claim C4. For a FrozenParameterGate built from a subgate with \<open>n\<close> parameters and a fixed
  map of size \<open>f\<close>, \<^verbatim>\<open>num_params\<close> is \<open>n - f\<close>, and for every free-parameter vector of
  length \<open>n - f\<close> \<^verbatim>\<open>get_grad\<close> asks the subgate for its gradient at the full parameter
  vector. When that gradient is a stack of \<open>n\<close> matrices, \<^verbatim>\<open>get_grad\<close> returns exactly
  \<open>n - f\<close> matrices: the rows of the stack at the unfixed indices, in ascending order of
  index. When it is an array of one or two axes, as the empty array of a gate without
  parameters, \<^verbatim>\<open>get_grad\<close> raises IndexError instead of returning no matrix. An
  exception of the subgate is passed on.
\<close>

theorem get_grad_rows:
  assumes "dict_ok fixed_params"
    and "FrozenParameterGate_init g fixed_params = Inr fg"
    and "length free = get_num_params g - length fixed_params"
  shows "fg_num_params fg = get_num_params g - length fixed_params
         \<and> (\<exists>full.
               get_full_params fg free = Inr full
             \<and> length full = get_num_params g
             \<and> (\<forall>grads. gate_get_grad g full = Inr (Array3 grads)
                         \<and> length grads = get_num_params g \<longrightarrow>
                    fg_get_grad fg free =
                      Inr (Array3 (map (\<lambda>i. grads ! i)
                             (filter (\<lambda>i. int i \<notin> fst ` set fixed_params)
                                [0..<get_num_params g])))
                  \<and> length (map (\<lambda>i. grads ! i)
                             (filter (\<lambda>i. int i \<notin> fst ` set fixed_params)
                                [0..<get_num_params g]))
                      = get_num_params g - length fixed_params)
             \<and> (\<forall>xs. gate_get_grad g full = Inr (Array1 xs) \<longrightarrow>
                    fg_get_grad fg free = Inl IndexError)
             \<and> (\<forall>m. gate_get_grad g full = Inr (Array2 m) \<longrightarrow>
                    fg_get_grad fg free = Inl IndexError)
             \<and> (\<forall>e. gate_get_grad g full = Inl e \<longrightarrow> fg_get_grad fg free = Inl e))"
proof -
  note I = FrozenParameterGate_init_Inr[OF assms(2)]
  from get_full_params_frozen[OF assms(1-3)]
  obtain full where full: "get_full_params fg free = Inr full" "length full = get_num_params g"
    by blast
  let ?idxs = "filter (\<lambda>i. int i \<notin> fst ` set fixed_params) [0..<get_num_params g]"
  have idx: "fg_unfixed_param_idxs fg = ?idxs" using I(6) by simp
  have "length ?idxs = get_num_params g - length (map fst fixed_params)"
    using length_unfixed_idxs[of "map fst fixed_params" "get_num_params g"] assms(1) I(2)
    by (simp add: dict_ok_def)
  then have len: "\<And>grads :: matrix list.
      length (map (\<lambda>i. grads ! i) ?idxs) = get_num_params g - length fixed_params"
    by simp
  have stack: "\<forall>grads. gate_get_grad g full = Inr (Array3 grads)
                         \<and> length grads = get_num_params g \<longrightarrow>
                    fg_get_grad fg free = Inr (Array3 (map (\<lambda>i. grads ! i) ?idxs))
                  \<and> length (map (\<lambda>i. grads ! i) ?idxs)
                      = get_num_params g - length fixed_params"
  proof (intro allI impI)
    fix grads :: "matrix list"
    assume g: "gate_get_grad g full = Inr (Array3 grads) \<and> length grads = get_num_params g"
    then have "list_all (\<lambda>i. i < length grads) ?idxs"
      by (simp add: list_all_iff)
    then have "fg_get_grad fg free = Inr (Array3 (map (\<lambda>i. grads ! i) ?idxs))"
      using g by (simp add: fg_get_grad_def full(1) I(3) take_rows_def idx)
    with len[of grads]
    show "fg_get_grad fg free = Inr (Array3 (map (\<lambda>i. grads ! i) ?idxs))
        \<and> length (map (\<lambda>i. grads ! i) ?idxs) = get_num_params g - length fixed_params"
      by simp
  qed
  have one: "\<forall>xs. gate_get_grad g full = Inr (Array1 xs) \<longrightarrow> fg_get_grad fg free = Inl IndexError"
    by (simp add: fg_get_grad_def full(1) I(3) take_rows_def)
  have two: "\<forall>m. gate_get_grad g full = Inr (Array2 m) \<longrightarrow> fg_get_grad fg free = Inl IndexError"
    by (simp add: fg_get_grad_def full(1) I(3) take_rows_def)
  have err: "\<forall>e. gate_get_grad g full = Inl e \<longrightarrow> fg_get_grad fg free = Inl e"
    by (simp add: fg_get_grad_def full(1) I(3))
  show ?thesis using I(4) full stack one two err by blast
qed

text \<open>
  The three-parameter gate with index 1 frozen: rows 0 and 2 of the gradient remain.
  The constant gate CZ with nothing frozen: the gradient \<^verbatim>\<open>np.array([])\<close> has one axis
  and \<^verbatim>\<open>get_grad\<close> raises.
\<close>

theorem get_grad_rows_witness:
  "dict_ok [(1, 1 / 2)]
   \<and> (\<exists>fg. FrozenParameterGate_init test_gate3 [(1, 1 / 2)] = Inr fg
         \<and> fg_num_params fg = 2
         \<and> fg_get_grad fg [0, 0]
             = Inr (Array3 [[[\<i>, 0], [0, 0]], [[0, 0], [0, \<i> * cis (1 / 2)]]]))
   \<and> dict_ok []
   \<and> (\<exists>fg. FrozenParameterGate_init CZGate [] = Inr fg
         \<and> fg_num_params fg = 0
         \<and> fg_get_grad fg [] = Inl IndexError)"
proof -
  obtain fg where fg: "FrozenParameterGate_init test_gate3 [(1, 1 / 2)] = Inr fg"
    by (simp add: FrozenParameterGate_init_def test_gate3_def)
  have d: "dict_ok [(1, 1 / 2)]" by (simp add: dict_ok_def)
  have l: "length [0, 0 :: real] = get_num_params test_gate3 - length [(1 :: int, 1 / 2 :: real)]"
    by (simp add: test_gate3_def)
  have f: "get_full_params fg [0, 0] = Inr [0, 1 / 2, 0]"
    using FrozenParameterGate_init_Inr(4,5)[OF fg]
    by (simp add: get_full_params_def check_parameters_def list_insert_def test_gate3_def)
  have u: "filter (\<lambda>i. int i \<notin> fst ` set [(1 :: int, 1 / 2 :: real)]) [0..<get_num_params test_gate3] = [0, 2]"
    by (simp add: test_gate3_def upt_rec)
  have gr: "gate_get_grad test_gate3 [0, 1 / 2, 0]
      = Inr (Array3 [[[\<i>, 0], [0, 0]], [[0, 0], [0, \<i> * cis (1 / 2)]], [[0, 0], [0, \<i> * cis (1 / 2)]]])
      \<and> length [[[\<i>, 0], [0, 0]], [[0, 0], [0, \<i> * cis (1 / 2)]], [[0, 0], [0, \<i> * cis (1 / 2)]]]
        = get_num_params test_gate3"
    by (simp add: test_gate3_def)
  from get_grad_rows[OF d fg l]
  have A: "fg_num_params fg = 2
      \<and> fg_get_grad fg [0, 0] = Inr (Array3 [[[\<i>, 0], [0, 0]], [[0, 0], [0, \<i> * cis (1 / 2)]]])"
    unfolding f u using gr by (auto simp: test_gate3_def)
  obtain fc where fc: "FrozenParameterGate_init CZGate [] = Inr fc"
    by (simp add: FrozenParameterGate_init_def CZGate_def)
  have dc: "dict_ok []" by (simp add: dict_ok_def)
  have lc: "length ([] :: real list) = get_num_params CZGate - length ([] :: (int \<times> real) list)"
    by (simp add: CZGate_def)
  have fcf: "get_full_params fc [] = Inr []"
    using FrozenParameterGate_init_Inr(4,5)[OF fc]
    by (simp add: get_full_params_def check_parameters_def CZGate_def)
  have gc: "gate_get_grad CZGate [] = Inr (Array1 [])"
    by (simp add: CZGate_def check_parameters_def)
  from get_grad_rows[OF dc fc lc]
  have B: "fg_num_params fc = 0 \<and> fg_get_grad fc [] = Inl IndexError"
    unfolding fcf using gc by (auto simp: CZGate_def)
  show ?thesis using d fg A dc fc B by blast
qed

section \<open>The gradient of U2Gate\<close>

lemma exp_i_deriv:
  "((\<lambda>t. exp (\<i> * complex_of_real t)) has_vector_derivative (\<i> * exp (\<i> * complex_of_real t))) (at t)"
  unfolding cis_conv_exp[symmetric] has_vector_derivative_complex_iff
  by (auto intro!: derivative_eq_intros)

lemma U2_get_unitary_eval:
  "U2_get_unitary [p, l] =
     Inr [[complex_of_real (sqrt 2 / 2), - exp (\<i> * complex_of_real l) * complex_of_real (sqrt 2 / 2)],
          [exp (\<i> * complex_of_real p) * complex_of_real (sqrt 2 / 2),
           exp (\<i> * complex_of_real p) * exp (\<i> * complex_of_real l) * complex_of_real (sqrt 2 / 2)]]"
  by (simp add: U2_get_unitary_def check_parameters_def Let_def)

lemma U2_get_grad_eval:
  "U2_get_grad [p, l] =
     Inr [[[0, 0],
           [\<i> * exp (\<i> * complex_of_real p) * complex_of_real (sqrt 2 / 2),
            \<i> * exp (\<i> * complex_of_real p) * exp (\<i> * complex_of_real l) * complex_of_real (sqrt 2 / 2)]],
          [[0, - (\<i> * exp (\<i> * complex_of_real l)) * complex_of_real (sqrt 2 / 2)],
           [0, exp (\<i> * complex_of_real p) * (\<i> * exp (\<i> * complex_of_real l)) * complex_of_real (sqrt 2 / 2)]]]"
  by (simp add: U2_get_grad_def check_parameters_def Let_def)

text \<open>
  The matrix of U2 is unitary at all parameters, so a wrapper that validates it accepts
  it.
\<close>

lemma sq2_sq: "complex_of_real (sqrt 2) * complex_of_real (sqrt 2) = 2"
  by (metis of_real_mult of_real_numeral real_sqrt_mult_self abs_numeral)

lemma U2_is_unitary:
  assumes "U2_get_unitary [p, l] = Inr U"
  shows "is_unitary U"
proof -
  have U: "U = [[complex_of_real (sqrt 2 / 2), - (cis l * complex_of_real (sqrt 2 / 2))],
          [cis p * complex_of_real (sqrt 2 / 2), cis p * cis l * complex_of_real (sqrt 2 / 2)]]"
    using assms by (simp add: U2_get_unitary_def check_parameters_def Let_def cis_conv_exp)
  have c: "cis p * cis (- p) = 1" "cis l * cis (- l) = 1" by (simp_all add: cis_mult)
  have c': "\<And>x y. cis p * (x * (cis (- p) * y)) = x * y" "\<And>x y. cis l * (x * (cis (- l) * y)) = x * y"
    using c by (simp_all add: algebra_simps)
  show ?thesis
    unfolding U
    apply (simp add: is_unitary_def matmul_def dagger_def n_rows_def n_cols_def dot_def
        numeral_2_eq_2 cis_cnj)
    apply (simp add: algebra_simps sq2_sq c c' cis_mult)
    done
qed

text \<open>
  Claim C8. For the U2 gate and every parameter vector \<open>[p, l]\<close>, \<^verbatim>\<open>get_unitary\<close> returns the
  matrix \<^verbatim>\<open>[[s, -e^(il) s], [e^(ip) s, e^(ip) e^(il) s]]\<close> with \<^verbatim>\<open>s = sqrt(2)/2\<close>,
  \<^verbatim>\<open>get_grad\<close> returns two 2-by-2 matrices, and every entry of the first is the derivative
  in \<open>p\<close> of the same entry of the unitary, every entry of the second its derivative in
  \<open>l\<close>. Floats are reals here, so the derivative is the exact one.
\<close>

theorem U2_grad_is_derivative:
  "U2_get_unitary [p, l] =
     Inr [[complex_of_real (sqrt 2 / 2), - exp (\<i> * complex_of_real l) * complex_of_real (sqrt 2 / 2)],
          [exp (\<i> * complex_of_real p) * complex_of_real (sqrt 2 / 2),
           exp (\<i> * complex_of_real p) * exp (\<i> * complex_of_real l) * complex_of_real (sqrt 2 / 2)]]
   \<and> (\<exists>D0 D1. U2_get_grad [p, l] = Inr [D0, D1] \<and> length D0 = 2 \<and> length D1 = 2
        \<and> length (D0 ! 0) = 2 \<and> length (D0 ! 1) = 2 \<and> length (D1 ! 0) = 2 \<and> length (D1 ! 1) = 2)
   \<and> ((\<lambda>t. entry (U2_get_unitary [t, l]) 0 0) has_vector_derivative grad_entry (U2_get_grad [p, l]) 0 0 0) (at p)
   \<and> ((\<lambda>t. entry (U2_get_unitary [t, l]) 0 1) has_vector_derivative grad_entry (U2_get_grad [p, l]) 0 0 1) (at p)
   \<and> ((\<lambda>t. entry (U2_get_unitary [t, l]) 1 0) has_vector_derivative grad_entry (U2_get_grad [p, l]) 0 1 0) (at p)
   \<and> ((\<lambda>t. entry (U2_get_unitary [t, l]) 1 1) has_vector_derivative grad_entry (U2_get_grad [p, l]) 0 1 1) (at p)
   \<and> ((\<lambda>t. entry (U2_get_unitary [p, t]) 0 0) has_vector_derivative grad_entry (U2_get_grad [p, l]) 1 0 0) (at l)
   \<and> ((\<lambda>t. entry (U2_get_unitary [p, t]) 0 1) has_vector_derivative grad_entry (U2_get_grad [p, l]) 1 0 1) (at l)
   \<and> ((\<lambda>t. entry (U2_get_unitary [p, t]) 1 0) has_vector_derivative grad_entry (U2_get_grad [p, l]) 1 1 0) (at l)
   \<and> ((\<lambda>t. entry (U2_get_unitary [p, t]) 1 1) has_vector_derivative grad_entry (U2_get_grad [p, l]) 1 1 1) (at l)"
proof -
  note dp = exp_i_deriv[of p] and dl = exp_i_deriv[of l]
  have shape: "\<exists>D0 D1. U2_get_grad [p, l] = Inr [D0, D1] \<and> length D0 = 2 \<and> length D1 = 2
        \<and> length (D0 ! 0) = 2 \<and> length (D0 ! 1) = 2 \<and> length (D1 ! 0) = 2 \<and> length (D1 ! 1) = 2"
    unfolding U2_get_grad_eval by simp
  have p00: "((\<lambda>t. entry (U2_get_unitary [t, l]) 0 0) has_vector_derivative grad_entry (U2_get_grad [p, l]) 0 0 0) (at p)"
    unfolding U2_get_unitary_eval U2_get_grad_eval by (simp add: entry_def grad_entry_def)
  have p01: "((\<lambda>t. entry (U2_get_unitary [t, l]) 0 1) has_vector_derivative grad_entry (U2_get_grad [p, l]) 0 0 1) (at p)"
    unfolding U2_get_unitary_eval U2_get_grad_eval by (simp add: entry_def grad_entry_def)
  have p10: "((\<lambda>t. entry (U2_get_unitary [t, l]) 1 0) has_vector_derivative grad_entry (U2_get_grad [p, l]) 0 1 0) (at p)"
    unfolding U2_get_unitary_eval U2_get_grad_eval
    using has_vector_derivative_mult_left[OF dp, of "complex_of_real (sqrt 2 / 2)"]
    by (simp add: entry_def grad_entry_def)
  have p11: "((\<lambda>t. entry (U2_get_unitary [t, l]) 1 1) has_vector_derivative grad_entry (U2_get_grad [p, l]) 0 1 1) (at p)"
    unfolding U2_get_unitary_eval U2_get_grad_eval
    using has_vector_derivative_mult_left[OF dp, of "exp (\<i> * complex_of_real l) * complex_of_real (sqrt 2 / 2)"]
    by (simp add: entry_def grad_entry_def mult.assoc)
  have l00: "((\<lambda>t. entry (U2_get_unitary [p, t]) 0 0) has_vector_derivative grad_entry (U2_get_grad [p, l]) 1 0 0) (at l)"
    unfolding U2_get_unitary_eval U2_get_grad_eval by (simp add: entry_def grad_entry_def)
  have l01: "((\<lambda>t. entry (U2_get_unitary [p, t]) 0 1) has_vector_derivative grad_entry (U2_get_grad [p, l]) 1 0 1) (at l)"
    unfolding U2_get_unitary_eval U2_get_grad_eval
    using has_vector_derivative_minus[OF has_vector_derivative_mult_left[OF dl, of "complex_of_real (sqrt 2 / 2)"]]
    by (simp add: entry_def grad_entry_def)
  have l10: "((\<lambda>t. entry (U2_get_unitary [p, t]) 1 0) has_vector_derivative grad_entry (U2_get_grad [p, l]) 1 1 0) (at l)"
    unfolding U2_get_unitary_eval U2_get_grad_eval by (simp add: entry_def grad_entry_def)
  have l11: "((\<lambda>t. entry (U2_get_unitary [p, t]) 1 1) has_vector_derivative grad_entry (U2_get_grad [p, l]) 1 1 1) (at l)"
    unfolding U2_get_unitary_eval U2_get_grad_eval
    using has_vector_derivative_mult_right[OF has_vector_derivative_mult_left[OF dl, of "complex_of_real (sqrt 2 / 2)"], of "exp (\<i> * complex_of_real p)"]
    by (simp add: entry_def grad_entry_def mult.assoc)
  show ?thesis
    using U2_get_unitary_eval shape p00 p01 p10 p11 l00 l01 l10 l11 by blast
qed

section \<open>Instantiating a Singleton\<close>

lemma str_mod_message: "str_mod ''Creating singleton instance for class: '' name = Inl TypeError"
  by (simp add: str_mod_def)

lemma lookup_instance_initial:
  "''Singleton'' \<in> set mro \<Longrightarrow> lookup_instance (own_instance initial_state) mro = Inr None"
  by (induction mro) (auto simp: initial_state_def)

lemma Singleton_new_initial:
  "is_singleton_class cls \<Longrightarrow> Singleton_new cls initial_state = (Inl TypeError, initial_state)"
  using lookup_instance_initial[of "cls_name cls # cls_ancestors cls"]
  by (simp add: Singleton_new_def is_singleton_class_def str_mod_message del: lookup_instance.simps)

lemma Singleton_new_uncached:
  "lookup_instance (own_instance s) (cls_name cls # cls_ancestors cls) = Inr None
   \<Longrightarrow> Singleton_new cls s = (Inl TypeError, s)"
  by (simp add: Singleton_new_def str_mod_message del: lookup_instance.simps)

lemma instantiate_all_initial:
  "list_all is_singleton_class cs \<Longrightarrow>
   instantiate_all cs initial_state = (replicate (length cs) (Inl TypeError), initial_state)"
  by (induction cs) (simp_all add: Singleton_new_initial)

text \<open>
  Claim C9. An instantiation of \<^verbatim>\<open>Singleton\<close> or of a subclass that finds no cached
  instance raises TypeError and leaves the state as it was, so nothing is cached: the
  format string of the debug message has no conversion specifier for its argument. From
  the initial state every instantiation in any sequence of them raises TypeError, and no
  call ever returns an object.
\<close>

theorem Singleton_never_instantiates:
  "(lookup_instance (own_instance s) (cls_name cls # cls_ancestors cls) = Inr None
      \<longrightarrow> Singleton_new cls s = (Inl TypeError, s))
   \<and> (list_all is_singleton_class cs
      \<longrightarrow> instantiate_all cs initial_state = (replicate (length cs) (Inl TypeError), initial_state))"
  using Singleton_new_uncached instantiate_all_initial by blast

text \<open>A subclass in the initial state, and two instantiations of the base class in a row.\<close>

theorem Singleton_never_instantiates_witness:
  "lookup_instance (own_instance initial_state) [''CZGate'', ''Singleton''] = Inr None
   \<and> Singleton_new \<lparr>cls_name = ''CZGate'', cls_ancestors = [''Singleton'']\<rparr> initial_state
       = (Inl TypeError, initial_state)
   \<and> list_all is_singleton_class
       [\<lparr>cls_name = ''Singleton'', cls_ancestors = []\<rparr>, \<lparr>cls_name = ''Singleton'', cls_ancestors = []\<rparr>]
   \<and> instantiate_all
       [\<lparr>cls_name = ''Singleton'', cls_ancestors = []\<rparr>, \<lparr>cls_name = ''Singleton'', cls_ancestors = []\<rparr>]
       initial_state = ([Inl TypeError, Inl TypeError], initial_state)"
proof -
  have a: "lookup_instance (own_instance initial_state) [''CZGate'', ''Singleton''] = Inr None"
    by (simp add: initial_state_def)
  have b: "list_all is_singleton_class
       [\<lparr>cls_name = ''Singleton'', cls_ancestors = []\<rparr>, \<lparr>cls_name = ''Singleton'', cls_ancestors = []\<rparr>]"
    by (simp add: is_singleton_class_def)
  from Singleton_never_instantiates[of initial_state "\<lparr>cls_name = ''CZGate'', cls_ancestors = [''Singleton'']\<rparr>"
      "[\<lparr>cls_name = ''Singleton'', cls_ancestors = []\<rparr>, \<lparr>cls_name = ''Singleton'', cls_ancestors = []\<rparr>]"]
  show ?thesis using a b by simp
qed

section \<open>The error of a StateVector that is not normalised\<close>

text \<open>
  Claim C6 as stated fails: the vector \<open>[1, 1]\<close> has squared norm 2, and the constructor
  raises TypeError, not ValueError.
\<close>

theorem StateVector_nonunit_not_ValueError:
  "\<not> allclose (sum_sq ([1, 1])) 1 0 (1 / 10 ^ 8)
   \<and> StateVector_init is_vector_1d is_valid_radixes_spec (FromSeq [1, 1]) [] = Inl TypeError
   \<and> StateVector_init is_vector_1d is_valid_radixes_spec (FromSeq [1, 1]) [] \<noteq> Inl ValueError"
  by (simp add: StateVector_init_def is_pure_state_def allclose_def sum_sq_def is_vector_1d_def)

text \<open>
  Claim C6, amended. Constructing a StateVector from a vector whose sum of squared
  magnitudes differs from 1 by more than the tolerance \<^verbatim>\<open>1e-8\<close> fails with TypeError, the
  error of a malformed argument, for every such vector, whatever the radixes and
  whatever the two absent helpers answer.
\<close>

theorem StateVector_nonunit_TypeError:
  assumes "\<bar>sum_sq (xs) - 1\<bar> > 1 / 10 ^ 8"
  shows "StateVector_init is_vector is_valid_radixes (FromSeq xs) radixes = Inl TypeError"
  using assms by (simp add: StateVector_init_def is_pure_state_def allclose_def sum_sq_def is_vector_1d_def)

text \<open>A vector of squared norm 34/25, with the radixes given.\<close>

theorem StateVector_nonunit_TypeError_witness:
  "\<bar>sum_sq ([3 / 5, \<i>]) - 1\<bar> > 1 / 10 ^ 8
   \<and> StateVector_init is_vector_1d is_valid_radixes_spec (FromSeq [3 / 5, \<i>]) [2] = Inl TypeError"
proof -
  have h: "\<bar>sum_sq ([3 / 5, \<i>]) - 1\<bar> > 1 / 10 ^ 8"
    by (simp add: sum_sq_def power2_eq_square norm_divide)
  from StateVector_nonunit_TypeError[OF h] h show ?thesis by blast
qed

text \<open>A unit vector is accepted, and its radixes are found from its dimension.\<close>

lemma StateVector_unit_ok:
  "StateVector_init is_vector_1d is_valid_radixes_spec (FromSeq [3 / 5, 4 / 5 * \<i>]) []
     = Inr \<lparr> sv_vec = [3 / 5, 4 / 5 * \<i>], sv_dim = 2, sv_radixes = [2], sv_size = 1 \<rparr>"
  by (simp add: StateVector_init_def is_pure_state_def allclose_def determine_radixes_def
      sum_sq_def is_vector_1d_def is_valid_radixes_spec_def
      power2_eq_square norm_divide norm_mult)

section \<open>Constructing a VariableLocationGate\<close>

lemma VariableLocationGate_init_Inr:
  assumes "VariableLocationGate_init ivl g locations = Inr v"
  shows "locations \<noteq> []"
    and "list_all ivl locations"
    and "list_all (\<lambda>l. length l = get_size g) locations"
    and "vlg_gate v = g"
    and "vlg_locations v = locations"
    and "vlg_num_params v = get_num_params g + length locations"
    and "vlg_perms v = map (from_qubit_location (vlg_size v)) locations"
    and "vlg_I v = identity (2 ^ nat (int (vlg_size v) - int (get_size g)))"
    and "get_size g \<le> vlg_size v"
    and "\<exists>radix_map. assign_locations (get_radixes g) locations (replicate (vlg_size v) None) = Inr radix_map
           \<and> vlg_radixes v = map default_radix radix_map"
    and "\<exists>maxes m. map_err py_max locations = Inr maxes \<and> py_max maxes = Inr m \<and> vlg_size v = m + 1"
  using assms
  by (auto simp: VariableLocationGate_init_def Let_def split: if_splits sum.splits)

lemma assign_radixes_Inr:
  assumes "assign_radixes ps m = Inr m'"
  shows "length m' = length m
       \<and> (\<forall>(r, q)\<in>set ps. m' ! q = Some r)
       \<and> (\<forall>q<length m. \<forall>r. m ! q = Some r \<longrightarrow> m' ! q = Some r)
       \<and> (\<forall>q<length m. q \<notin> snd ` set ps \<longrightarrow> m' ! q = m ! q)"
  using assms
proof (induction ps arbitrary: m)
  case Nil
  then show ?case by simp
next
  case (Cons p ps)
  obtain radix q where p: "p = (radix, q)" by (cases p)
  from Cons.prems have q: "q < length m"
    by (simp add: p split: if_splits)
  show ?case
  proof (cases "m ! q")
    case None
    with Cons.prems q have rec: "assign_radixes ps (m[q := Some radix]) = Inr m'"
      by (simp add: p)
    from Cons.IH[OF rec] q None show ?thesis
      by (auto simp: p nth_list_update split: if_splits)
  next
    case (Some r)
    with Cons.prems q have eq: "r = radix" and rec: "assign_radixes ps m = Inr m'"
      by (simp_all add: p split: if_splits)
    from Cons.IH[OF rec] q Some eq show ?thesis
      by (auto simp: p)
  qed
qed

lemma assign_radixes_Inl:
  assumes "assign_radixes ps m = Inl e" "\<forall>(r, q)\<in>set ps. q < length m"
  shows "e = ValueError"
  using assms
proof (induction ps arbitrary: m)
  case Nil
  then show ?case by simp
next
  case (Cons p ps)
  obtain radix q where p: "p = (radix, q)" by (cases p)
  from Cons.prems(2) have q: "q < length m" and rest: "\<forall>(r, q)\<in>set ps. q < length m"
    by (auto simp: p)
  show ?case
  proof (cases "m ! q")
    case None
    with Cons.prems(1) q have rec: "assign_radixes ps (m[q := Some radix]) = Inl e"
      by (simp add: p)
    from Cons.IH[OF rec] rest show ?thesis by simp
  next
    case (Some r)
    show ?thesis
    proof (cases "r = radix")
      case True
      with Cons.prems(1) q Some have "assign_radixes ps m = Inl e" by (simp add: p)
      from Cons.IH[OF this rest] show ?thesis .
    next
      case False
      with Cons.prems(1) q Some show ?thesis by (simp add: p)
    qed
  qed
qed

lemma assign_locations_concat:
  "assign_locations rs ls m = assign_radixes (concat (map (zip rs) ls)) m"
proof (induction ls arbitrary: m)
  case Nil
  show ?case by simp
next
  case (Cons l ls)
  have app: "\<And>ps qs m. assign_radixes (ps @ qs) m =
      (case assign_radixes ps m of Inl e \<Rightarrow> Inl e | Inr m' \<Rightarrow> assign_radixes qs m')"
  proof -
    fix ps qs m
    show "assign_radixes (ps @ qs) m =
      (case assign_radixes ps m of Inl e \<Rightarrow> Inl e | Inr m' \<Rightarrow> assign_radixes qs m')"
      by (induction ps arbitrary: m) (auto split: option.splits)
  qed
  show ?case by (simp add: app Cons.IH split: sum.splits)
qed

lemma fold_max_ge: "x \<le> fold max xs (x :: nat)" "\<forall>y\<in>set xs. y \<le> fold max xs x"
proof -
  have "x \<le> fold max xs x \<and> (\<forall>y\<in>set xs. y \<le> fold max xs x)"
  proof (induction xs arbitrary: x)
    case Nil
    show ?case by simp
  next
    case (Cons a xs)
    from Cons.IH[of "max a x"] show ?case by auto
  qed
  then show "x \<le> fold max xs x" "\<forall>y\<in>set xs. y \<le> fold max xs x" by simp_all
qed

lemma py_max_ge: "py_max xs = Inr m \<Longrightarrow> \<forall>y\<in>set xs. y \<le> m"
  using fold_max_ge by (cases xs) (auto simp: py_max_def)

lemma map_err_Inr:
  "map_err f xs = Inr ys \<Longrightarrow> length ys = length xs \<and> (\<forall>i<length xs. f (xs ! i) = Inr (ys ! i))"
proof (induction xs arbitrary: ys)
  case Nil
  then show ?case by simp
next
  case (Cons x xs)
  then show ?case
    by (auto split: sum.splits simp: nth_Cons split: nat.splits)
qed

lemma locations_in_register:
  assumes "map_err py_max locations = Inr maxes" "py_max maxes = Inr m"
  shows "\<forall>l\<in>set locations. \<forall>q\<in>set l. q < m + 1"
proof (intro ballI)
  fix l q assume l: "l \<in> set locations" and q: "q \<in> set l"
  then obtain i where i: "i < length locations" "locations ! i = l"
    by (auto simp: in_set_conv_nth)
  from map_err_Inr[OF assms(1)] i have len: "length maxes = length locations"
    and mx: "py_max l = Inr (maxes ! i)" by auto
  from py_max_ge[OF mx] q have "q \<le> maxes ! i" by simp
  moreover have "maxes ! i \<le> m" using py_max_ge[OF assms(2)] i(1) len by simp
  ultimately show "q < m + 1" by simp
qed


lemma map_err_py_max_nonempty:
  "\<forall>l\<in>set locations. l \<noteq> [] \<Longrightarrow> \<exists>maxes. map_err py_max locations = Inr maxes"
proof (induction locations)
  case Nil
  show ?case by simp
next
  case (Cons l ls)
  then obtain x rest where "l = x # rest" by (cases l) auto
  with Cons show ?case by (auto simp: py_max_def)
qed

lemma VariableLocationGate_init_empty:
  "VariableLocationGate_init ivl g [] = Inl ValueError"
  by (simp add: VariableLocationGate_init_def)

lemma VariableLocationGate_init_bad_length:
  assumes "\<exists>l\<in>set locations. length l \<noteq> get_size g"
  shows "VariableLocationGate_init ivl g locations =
           (if list_all ivl locations then Inl ValueError else Inl TypeError)"
  using assms by (auto simp: VariableLocationGate_init_def list_all_iff)

lemma VariableLocationGate_init_conflict:
  assumes valid: "list_all ivl locations"
    and conflict: "radix_conflict (get_radixes g) locations"
  shows "VariableLocationGate_init ivl g locations = Inl ValueError"
proof (cases "list_all (\<lambda>l. length l = get_size g) locations")
  case False
  then show ?thesis using valid by (simp add: VariableLocationGate_init_def)
next
  case True
  let ?rs = "get_radixes g"
  from conflict obtain l1 l2 i j where c:
      "l1 \<in> set locations" "l2 \<in> set locations"
      "i < length l1" "i < length ?rs" "j < length l2" "j < length ?rs"
      "l1 ! i = l2 ! j" "?rs ! i \<noteq> ?rs ! j"
    unfolding radix_conflict_def by auto
  have ne: "locations \<noteq> []" using c(1) by auto
  have pos: "0 < get_size g" using True c(1,3) by (auto simp: list_all_iff)
  have "\<forall>l\<in>set locations. l \<noteq> []" using True pos by (auto simp: list_all_iff)
  from map_err_py_max_nonempty[OF this]
  obtain maxes where maxes: "map_err py_max locations = Inr maxes" by blast
  have "length maxes = length locations" using map_err_Inr[OF maxes] by simp
  then have "maxes \<noteq> []" using ne by auto
  then obtain m where m: "py_max maxes = Inr m"
    by (cases maxes) (auto simp: py_max_def)
  note reg = locations_in_register[OF maxes m]
  let ?ps = "concat (map (zip ?rs) locations)"
  have p1: "(?rs ! i, l1 ! i) \<in> set ?ps"
    using c(1,3,4) by (auto simp: set_zip intro!: bexI[of _ l1] exI[of _ i])
  have p2: "(?rs ! j, l2 ! j) \<in> set ?ps"
    using c(2,5,6) by (auto simp: set_zip intro!: bexI[of _ l2] exI[of _ j])
  have bound: "\<forall>(r, q)\<in>set ?ps. q < length (replicate (m + 1) (None :: nat option))"
    using reg by (auto dest!: set_zip_rightD)
  have "assign_locations ?rs locations (replicate (m + 1) None) = Inl ValueError"
  proof (cases "assign_radixes ?ps (replicate (m + 1) None)")
    case (Inl e)
    from assign_radixes_Inl[OF Inl bound] Inl show ?thesis
      by (simp add: assign_locations_concat)
  next
    case (Inr m')
    from assign_radixes_Inr[OF Inr] p1 p2
    have "m' ! (l1 ! i) = Some (?rs ! i)" "m' ! (l2 ! j) = Some (?rs ! j)" by auto
    with c(7,8) show ?thesis by simp
  qed
  then show ?thesis
    using valid True ne maxes m by (simp add: VariableLocationGate_init_def)
qed

lemma VariableLocationGate_init_default_radix:
  assumes "VariableLocationGate_init ivl g locations = Inr v"
  shows "length (vlg_radixes v) = vlg_size v"
    and "\<forall>q<vlg_size v. (\<forall>l\<in>set locations. q \<notin> set l) \<longrightarrow> vlg_radixes v ! q = 2"
proof -
  from assms obtain radix_map where
      rm: "assign_locations (get_radixes g) locations (replicate (vlg_size v) None) = Inr radix_map"
      and rad: "vlg_radixes v = map default_radix radix_map"
    by (auto simp: VariableLocationGate_init_def Let_def split: if_splits sum.splits)
  let ?ps = "concat (map (zip (get_radixes g)) locations)"
  from rm have "assign_radixes ?ps (replicate (vlg_size v) None) = Inr radix_map"
    by (simp add: assign_locations_concat)
  note A = assign_radixes_Inr[OF this]
  from A have len: "length radix_map = vlg_size v" by simp
  then show "length (vlg_radixes v) = vlg_size v" by (simp add: rad)
  show "\<forall>q<vlg_size v. (\<forall>l\<in>set locations. q \<notin> set l) \<longrightarrow> vlg_radixes v ! q = 2"
  proof (intro allI impI)
    fix q assume q: "q < vlg_size v" and un: "\<forall>l\<in>set locations. q \<notin> set l"
    have "q \<notin> snd ` set ?ps"
      using un by (auto dest!: set_zip_rightD)
    with A q have "radix_map ! q = None" by simp
    then show "vlg_radixes v ! q = 2" using q len by (simp add: rad default_radix_def)
  qed
qed

text \<open>
  Claim C5. Constructing a VariableLocationGate fails with ValueError when the list of
  candidates is empty; fails (with ValueError, or with TypeError when some candidate is
  not a valid location) when a candidate's length differs from the subgate's size; fails
  with ValueError when the candidates are valid locations and two of them give one
  register position different radixes; and when it succeeds, the gate has one radix for
  each position of its register, radix 2 at every position no candidate refers to, and
  as many parameters as the subgate has plus the number of candidates.
\<close>

theorem VariableLocationGate_init_checks:
  "VariableLocationGate_init is_valid_location g [] = Inl ValueError
   \<and> ((\<exists>l\<in>set locations. length l \<noteq> get_size g) \<longrightarrow>
        VariableLocationGate_init is_valid_location g locations =
          (if list_all is_valid_location locations then Inl ValueError else Inl TypeError))
   \<and> (list_all is_valid_location locations \<and> radix_conflict (get_radixes g) locations \<longrightarrow>
        VariableLocationGate_init is_valid_location g locations = Inl ValueError)
   \<and> (\<forall>v. VariableLocationGate_init is_valid_location g locations = Inr v \<longrightarrow>
          length (vlg_radixes v) = vlg_size v
        \<and> (\<forall>q<vlg_size v. (\<forall>l\<in>set locations. q \<notin> set l) \<longrightarrow> vlg_radixes v ! q = 2)
        \<and> vlg_num_params v = get_num_params g + length locations)"
  using VariableLocationGate_init_empty[of is_valid_location g]
    VariableLocationGate_init_bad_length[of locations g is_valid_location]
    VariableLocationGate_init_conflict[of is_valid_location locations g]
    VariableLocationGate_init_default_radix[of is_valid_location g locations]
    VariableLocationGate_init_Inr(6)[of is_valid_location g locations]
  by blast


text \<open>
  A candidate of length 2 for U2; the candidates \<open>(0, 1)\<close> and \<open>(1, 0)\<close> for a gate on a
  qubit and a qutrit; the candidates \<open>(0)\<close> and \<open>(2)\<close> for a qutrit gate, where position 1
  is referred to by none.
\<close>

theorem VariableLocationGate_init_checks_witness:
  "VariableLocationGate_init distinct U2Gate [[0, 1]] = Inl ValueError
   \<and> radix_conflict (get_radixes qubit_qutrit_identity_gate) [[0, 1], [1, 0]]
   \<and> VariableLocationGate_init distinct qubit_qutrit_identity_gate [[0, 1], [1, 0]] = Inl ValueError
   \<and> (\<exists>v. VariableLocationGate_init distinct qutrit_identity_gate [[0], [2]] = Inr v
         \<and> vlg_size v = 3 \<and> vlg_radixes v = [3, 2, 3] \<and> vlg_radixes v ! 1 = 2
         \<and> vlg_num_params v = 2)"
proof -
  have b: "\<exists>l\<in>set [[0, 1 :: nat]]. length l \<noteq> get_size U2Gate"
    by (simp add: U2Gate_def)
  have b': "list_all distinct [[0, 1 :: nat]]" by simp
  from VariableLocationGate_init_checks[of distinct U2Gate "[[0, 1]]"] b b'
  have B: "VariableLocationGate_init distinct U2Gate [[0, 1]] = Inl ValueError"
    by presburger
  have c: "radix_conflict (get_radixes qubit_qutrit_identity_gate) [[0, 1], [1, 0]]"
  proof -
    have "(0 :: nat) < min (length [0, 1 :: nat]) (length [2, 3 :: nat])
        \<and> (1 :: nat) < min (length [1, 0 :: nat]) (length [2, 3 :: nat])
        \<and> [0, 1 :: nat] ! 0 = [1, 0] ! 1 \<and> [2, 3 :: nat] ! 0 \<noteq> [2, 3] ! 1"
      by simp
    then show ?thesis
      unfolding radix_conflict_def qubit_qutrit_identity_gate_def
      by (metis gate.select_convs(3) list.set_intros(1,2))
  qed
  have c': "list_all distinct [[0, 1 :: nat], [1, 0]]" by simp
  from VariableLocationGate_init_checks[of distinct qubit_qutrit_identity_gate "[[0, 1], [1, 0]]"] c c'
  have C: "VariableLocationGate_init distinct qubit_qutrit_identity_gate [[0, 1], [1, 0]] = Inl ValueError"
    by blast
  obtain v where v: "VariableLocationGate_init distinct qutrit_identity_gate [[0], [2]] = Inr v"
      and sz: "vlg_size v = 3" and rad: "vlg_radixes v = [3, 2, 3]"
    by (simp add: VariableLocationGate_init_def qutrit_identity_gate_def py_max_def default_radix_def
        numeral_3_eq_3)
  have un: "\<forall>l\<in>set [[0], [2 :: nat]]. 1 \<notin> set l" by simp
  from VariableLocationGate_init_checks[of distinct qutrit_identity_gate "[[0], [2]]"] v
  have D: "(\<forall>q<vlg_size v. (\<forall>l\<in>set [[0], [2 :: nat]]. q \<notin> set l) \<longrightarrow> vlg_radixes v ! q = 2)
        \<and> vlg_num_params v = get_num_params qutrit_identity_gate + length [[0], [2 :: nat]]"
    by blast
  then have "vlg_radixes v ! 1 = 2" using un sz by simp
  moreover have "vlg_num_params v = 2" using D by (simp add: qutrit_identity_gate_def)
  ultimately show ?thesis using B c C v sz rad by blast
qed

section \<open>The location chosen by a VariableLocationGate\<close>

lemma argmax_from_mono:
  assumes "\<And>x y. (f x < f y) = (x < y)"
  shows "argmax_from b (f bv) i (map f xs) = argmax_from b bv i xs"
  by (induction xs arbitrary: b bv i) (simp_all add: assms)

lemma argmax_mono:
  assumes "\<And>x y. (f x < f y) = (x < y)"
  shows "argmax (map f xs) = argmax xs"
  by (cases xs) (simp_all add: argmax_def argmax_from_mono[OF assms])

lemma softmax_sum_nonneg: "0 \<le> sum_list (map (\<lambda>xj. exp (beta * xj)) (x :: real list))"
  by (rule sum_list_nonneg) auto

lemma softmax_sum_pos: "x \<noteq> [] \<Longrightarrow> 0 < sum_list (map (\<lambda>xj. exp (beta * xj)) (x :: real list))"
proof (cases x)
  case Nil
  assume "x \<noteq> []"
  with Nil show ?thesis by simp
next
  case (Cons a rest)
  have "0 < exp (beta * a) + sum_list (map (\<lambda>xj. exp (beta * xj)) rest)"
    by (rule add_pos_nonneg) (simp_all add: softmax_sum_nonneg)
  then show ?thesis using Cons by simp
qed

lemma argmax_softmax:
  assumes "0 < beta"
  shows "argmax (softmax w beta) = argmax w"
proof (cases "w = []")
  case True
  then show ?thesis by (simp add: softmax_def)
next
  case False
  let ?S = "sum_list (map (\<lambda>xj. exp (beta * xj)) w)"
  have S: "0 < ?S" by (rule softmax_sum_pos[OF False])
  have "\<And>x y. (exp (beta * x) / ?S < exp (beta * y) / ?S) = (x < y)"
    using S assms by (simp add: divide_less_cancel)
  from argmax_mono[of "\<lambda>xi. exp (beta * xi) / ?S" w, OF this]
  show ?thesis by (simp add: softmax_def)
qed

lemma argmax_from_max:
  assumes "i = length pre" "bi < length pre" "bv = pre ! bi"
    and "\<forall>j<length pre. pre ! j \<le> bv" "\<forall>j<bi. pre ! j < bv"
  shows "argmax_from bi bv i xs < length (pre @ xs)
       \<and> (\<forall>j<length (pre @ xs). (pre @ xs) ! j \<le> (pre @ xs) ! argmax_from bi bv i xs)
       \<and> (\<forall>j<argmax_from bi bv i xs. (pre @ xs) ! j < (pre @ xs) ! argmax_from bi bv i xs)"
  using assms
proof (induction xs arbitrary: pre bi bv i)
  case Nil
  then show ?case by simp
next
  case (Cons x xs)
  show ?case
  proof (cases "bv < x")
    case True
    have "argmax_from i x (Suc i) xs < length ((pre @ [x]) @ xs)
       \<and> (\<forall>j<length ((pre @ [x]) @ xs). ((pre @ [x]) @ xs) ! j \<le> ((pre @ [x]) @ xs) ! argmax_from i x (Suc i) xs)
       \<and> (\<forall>j<argmax_from i x (Suc i) xs. ((pre @ [x]) @ xs) ! j < ((pre @ [x]) @ xs) ! argmax_from i x (Suc i) xs)"
    proof (rule Cons.IH)
      show "Suc i = length (pre @ [x])" using Cons.prems(1) by simp
      show "i < length (pre @ [x])" using Cons.prems(1) by simp
      show "x = (pre @ [x]) ! i" using Cons.prems(1) by simp
      show "\<forall>j<length (pre @ [x]). (pre @ [x]) ! j \<le> x"
        using Cons.prems(4) True by (auto simp: nth_append less_Suc_eq)
      show "\<forall>j<i. (pre @ [x]) ! j < x"
        using Cons.prems(1,4) True by (auto simp: nth_append)
    qed
    then show ?thesis using True by simp
  next
    case False
    have "argmax_from bi bv (Suc i) xs < length ((pre @ [x]) @ xs)
       \<and> (\<forall>j<length ((pre @ [x]) @ xs). ((pre @ [x]) @ xs) ! j \<le> ((pre @ [x]) @ xs) ! argmax_from bi bv (Suc i) xs)
       \<and> (\<forall>j<argmax_from bi bv (Suc i) xs. ((pre @ [x]) @ xs) ! j < ((pre @ [x]) @ xs) ! argmax_from bi bv (Suc i) xs)"
    proof (rule Cons.IH)
      show "Suc i = length (pre @ [x])" using Cons.prems(1) by simp
      show "bi < length (pre @ [x])" using Cons.prems(2) by simp
      show "bv = (pre @ [x]) ! bi" using Cons.prems(2,3) by (simp add: nth_append)
      show "\<forall>j<length (pre @ [x]). (pre @ [x]) ! j \<le> bv"
        using Cons.prems(4) False by (auto simp: nth_append less_Suc_eq)
      show "\<forall>j<bi. (pre @ [x]) ! j < bv"
        using Cons.prems(2,5) by (auto simp: nth_append)
    qed
    then show ?thesis using False by simp
  qed
qed

lemma argmax_is_first_max:
  assumes "xs \<noteq> []"
  shows "\<exists>i. argmax xs = Inr i \<and> i < length xs
           \<and> (\<forall>j<length xs. xs ! j \<le> xs ! i) \<and> (\<forall>j<i. xs ! j < xs ! i)"
proof -
  obtain x rest where xs: "xs = x # rest" using assms by (cases xs) auto
  from argmax_from_max[of 1 "[x]" 0 x rest]
  show ?thesis by (simp add: xs argmax_def)
qed

lemma length_softmax: "length (softmax w beta) = length w"
  by (simp add: softmax_def)

text \<open>
  Claim C7. For a VariableLocationGate and every parameter vector of valid length,
  \<^verbatim>\<open>split_params\<close> cuts the vector after the subgate's parameters, and \<^verbatim>\<open>get_location\<close>
  returns the candidate at the argmax of the softmax, at temperature 10, of the weight
  suffix, which is what remains of the vector after the subgate's parameters: the first
  candidate whose softmax weight is the largest. The code takes the argmax of the suffix
  itself, which is the same index.
\<close>

theorem get_location_is_softmax_argmax:
  assumes "VariableLocationGate_init is_valid_location g locations = Inr v"
    and "length params = vlg_num_params v"
  shows "split_params v params
           = (take (get_num_params g) params, drop (get_num_params g) params)
         \<and> length (drop (get_num_params g) params) = length locations
         \<and> (\<exists>i. argmax (softmax (drop (get_num_params g) params) 10) = Inr i
               \<and> i < length locations
               \<and> get_location v params = Inr (locations ! i)
               \<and> (\<forall>j<length locations.
                     softmax (drop (get_num_params g) params) 10 ! j
                       \<le> softmax (drop (get_num_params g) params) 10 ! i)
               \<and> (\<forall>j<i. softmax (drop (get_num_params g) params) 10 ! j
                       < softmax (drop (get_num_params g) params) 10 ! i))"
proof -
  note I = VariableLocationGate_init_Inr[OF assms(1)]
  let ?w = "drop (get_num_params g) params"
  have sp: "split_params v params = (take (get_num_params g) params, ?w)"
    by (simp add: split_params_def I(4))
  have len: "length ?w = length locations"
    using assms(2) I(6) by simp
  then have ne: "softmax ?w 10 \<noteq> []" using I(1) by (auto simp: softmax_def)
  from argmax_is_first_max[OF ne]
  obtain i where i: "argmax (softmax ?w 10) = Inr i" "i < length (softmax ?w 10)"
      "\<forall>j<length (softmax ?w 10). softmax ?w 10 ! j \<le> softmax ?w 10 ! i"
      "\<forall>j<i. softmax ?w 10 ! j < softmax ?w 10 ! i"
    by blast
  have raw: "argmax ?w = Inr i" using i(1) argmax_softmax[of 10 ?w] by simp
  have il: "i < length locations" using i(2) len by (simp add: length_softmax)
  have "get_location v params = Inr (locations ! i)"
    using raw il by (simp add: get_location_def sp I(5))
  then show ?thesis using sp i il len by (auto simp: length_softmax)
qed

lemma example_vlg_init:
  "VariableLocationGate_init distinct U2Gate [[0], [1]] = Inr example_vlg"
  by (simp add: VariableLocationGate_init_def U2Gate_def py_max_def example_vlg_def default_radix_def
      numeral_2_eq_2)

text \<open>
  Two candidates for U2. With the weights 2 and 1 after the two parameters of U2 the
  first candidate is chosen, with the weights 1 and 2 the second.
\<close>

theorem get_location_is_softmax_argmax_witness:
  "VariableLocationGate_init distinct U2Gate [[0], [1]] = Inr example_vlg
   \<and> length [0, 0, 2, 1 :: real] = vlg_num_params example_vlg
   \<and> split_params example_vlg [0, 0, 2, 1] = ([0, 0], [2, 1])
   \<and> argmax (softmax [2, 1] 10) = Inr 0
   \<and> get_location example_vlg [0, 0, 2, 1] = Inr [0]
   \<and> length [5, 7, 1, 2 :: real] = vlg_num_params example_vlg
   \<and> split_params example_vlg [5, 7, 1, 2] = ([5, 7], [1, 2])
   \<and> argmax (softmax [1, 2] 10) = Inr 1
   \<and> get_location example_vlg [5, 7, 1, 2] = Inr [1]"
proof -
  have n: "get_num_params U2Gate = 2" by (simp add: U2Gate_def)
  have l1: "length [0, 0, 2, 1 :: real] = vlg_num_params example_vlg"
    by (simp add: example_vlg_def)
  have a1: "argmax [2, 1] = Inr 0" by (simp add: argmax_def)
  from get_location_is_softmax_argmax[OF example_vlg_init l1]
  obtain i where s1: "split_params example_vlg [0, 0, 2, 1] = ([0, 0], [2, 1])"
      and i: "argmax (softmax [2, 1] 10) = Inr i"
        "get_location example_vlg [0, 0, 2, 1] = Inr ([[0], [1]] ! i)"
    unfolding n by auto
  have "i = 0" using i(1) a1 argmax_softmax[of 10 "[2, 1]"] by simp
  with i have A: "argmax (softmax [2, 1] 10) = Inr 0"
      "get_location example_vlg [0, 0, 2, 1] = Inr [0]"
    by simp_all
  have l2: "length [5, 7, 1, 2 :: real] = vlg_num_params example_vlg"
    by (simp add: example_vlg_def)
  have a2: "argmax [1, 2] = Inr 1" by (simp add: argmax_def)
  from get_location_is_softmax_argmax[OF example_vlg_init l2]
  obtain k where s2: "split_params example_vlg [5, 7, 1, 2] = ([5, 7], [1, 2])"
      and k: "argmax (softmax [1, 2] 10) = Inr k"
        "get_location example_vlg [5, 7, 1, 2] = Inr ([[0], [1]] ! k)"
    unfolding n by auto
  have "k = 1" using k(1) a2 argmax_softmax[of 10 "[1, 2]"] by simp
  with k have B: "argmax (softmax [1, 2] 10) = Inr 1"
      "get_location example_vlg [5, 7, 1, 2] = Inr [1]"
    by simp_all
  show ?thesis using example_vlg_init l1 s1 A l2 s2 B by blast
qed

section \<open>Shapes and entries of the matrices\<close>

lemma is_shape_n_rows: "is_shape r c M \<Longrightarrow> n_rows M = r"
  by (simp add: is_shape_def n_rows_def)

lemma is_shape_n_cols: "is_shape r c M \<Longrightarrow> 0 < r \<Longrightarrow> n_cols M = c"
  by (cases M) (auto simp: is_shape_def n_cols_def)

lemma is_shape_from_qubit_location:
  "is_shape (2 ^ n) (2 ^ n) (from_qubit_location n l)"
  by (simp add: is_shape_def from_qubit_location_def unit_row_def list_all_iff)

lemma is_shape_scale: "is_shape r c M \<Longrightarrow> is_shape r c (scale a M)"
  by (simp add: is_shape_def scale_def list_all_iff)

lemma is_shape_identity: "is_shape n n (identity n)"
  by (induction n) (auto simp: is_shape_def list_all_iff)

lemma is_shape_mat_add:
  assumes "is_shape r c A" "is_shape r c B" "0 < r"
  shows "\<exists>S. mat_add A B = Inr S \<and> is_shape r c S"
proof -
  have "n_rows A = n_rows B" "n_cols A = n_cols B"
    using assms by (simp_all add: is_shape_n_rows is_shape_n_cols)
  then have "mat_add A B = Inr (map2 (map2 (\<lambda>x y. x + y)) A B)"
    by (simp add: mat_add_def)
  moreover have "is_shape r c (map2 (map2 (\<lambda>x y. x + y)) A B)"
  proof -
    have "\<And>a b. (a, b) \<in> set (zip A B) \<Longrightarrow> length a = c \<and> length b = c"
      using assms(1,2) by (auto simp: is_shape_def list_all_iff dest: set_zip_leftD set_zip_rightD)
    then show ?thesis
      using assms(1,2) by (auto simp: is_shape_def list_all_iff)
  qed
  ultimately show ?thesis by blast
qed


lemma is_shape_sum_axis0:
  assumes "Ms \<noteq> []" "list_all (is_shape r c) Ms" "0 < r"
  shows "\<exists>S. sum_axis0 Ms = Inr S \<and> is_shape r c S"
  using assms
proof (induction Ms rule: sum_axis0.induct)
  case 1
  then show ?case by simp
next
  case (2 M)
  then show ?case by simp
next
  case (3 M N Ms)
  then obtain S where S: "sum_axis0 (N # Ms) = Inr S" "is_shape r c S" by auto
  from is_shape_mat_add[of r c M S] 3(3,4) S(2)
  obtain T where "mat_add M S = Inr T" "is_shape r c T" by auto
  with S(1) show ?case by simp
qed

lemma is_shape_weighted_perms:
  assumes "length l = length locations" "locations \<noteq> []"
  shows "\<exists>P. weighted_perms l (map (from_qubit_location n) locations) = Inr P
           \<and> is_shape (2 ^ n) (2 ^ n) P"
proof -
  let ?Ms = "map (\<lambda>(a, s). scale (complex_of_real a) s) (zip l (map (from_qubit_location n) locations))"
  have "?Ms \<noteq> []" using assms by (cases l; cases locations) auto
  moreover have "list_all (is_shape (2 ^ n) (2 ^ n)) ?Ms"
    by (auto simp: list_all_iff intro!: is_shape_scale dest!: set_zip_rightD
        simp: is_shape_from_qubit_location)
  ultimately show ?thesis
    unfolding weighted_perms_def by (intro is_shape_sum_axis0) simp_all
qed

lemma length_concat_const:
  "\<forall>x\<in>set xs. length (f x) = m \<Longrightarrow> length (concat (map f xs)) = length xs * m"
  by (induction xs) simp_all

lemma length_kron: "length (kron A B) = length A * length B"
  unfolding kron_def by (rule length_concat_const) simp

lemma is_shape_kron:
  assumes "is_shape ra ca A" "is_shape rb cb B"
  shows "is_shape (ra * rb) (ca * cb) (kron A B)"
proof -
  have rows: "length (kron A B) = ra * rb"
    using assms by (simp add: length_kron is_shape_def)
  have "\<forall>row\<in>set (kron A B). length row = ca * cb"
  proof
    fix row assume "row \<in> set (kron A B)"
    then obtain a b where ab: "a \<in> set A" "b \<in> set B"
        "row = concat (map (\<lambda>x. map (\<lambda>y. x * y) b) a)"
      by (auto simp: kron_def)
    have "length row = length a * length b"
      unfolding ab(3) by (rule length_concat_const) simp
    then show "length row = ca * cb"
      using ab(1,2) assms by (simp add: is_shape_def list_all_iff)
  qed
  with rows show ?thesis by (simp add: is_shape_def list_all_iff)
qed

lemma length_mat_T:
  assumes "is_shape r c M" "0 < r"
  shows "length (mat_T M) = c"
  using assms
proof (induction M arbitrary: r rule: mat_T.induct)
  case 1
  then show ?case by (simp add: is_shape_def)
next
  case (2 row)
  then show ?case by (simp add: is_shape_def)
next
  case (3 row v va)
  from 3(2) have "is_shape (length (v # va)) c (v # va)" "length row = c"
    by (simp_all add: is_shape_def)
  with 3(1)[of "length (v # va)"] show ?case by simp
qed

lemma matmul_shape:
  assumes "is_shape r n A" "is_shape n c B" "0 < r" "0 < n"
  shows "\<exists>C. matmul A B = Inr C \<and> is_shape r c C"
proof -
  have "n_cols A = n_rows B"
    using assms by (simp add: is_shape_n_rows is_shape_n_cols)
  then have "matmul A B = Inr (map (\<lambda>row. map (\<lambda>col. dot row col) (mat_T B)) A)"
    by (simp add: matmul_def)
  moreover have "is_shape r c (map (\<lambda>row. map (\<lambda>col. dot row col) (mat_T B)) A)"
    using assms(1) length_mat_T[OF assms(2,4)] by (simp add: is_shape_def list_all_iff)
  ultimately show ?thesis by blast
qed


lemma is_shape_mat_T:
  assumes "is_shape r c M" "0 < r"
  shows "is_shape c r (mat_T M)"
  using assms
proof (induction M arbitrary: r rule: mat_T.induct)
  case 1
  then show ?case by (simp add: is_shape_def)
next
  case (2 row)
  then show ?case by (auto simp: is_shape_def list_all_iff)
next
  case (3 row v va)
  from 3(2) have rest: "is_shape (length (v # va)) c (v # va)" and row: "length row = c"
      and r: "r = Suc (length (v # va))"
    by (auto simp: is_shape_def)
  from 3(1)[OF rest] have T: "is_shape c (length (v # va)) (mat_T (v # va))" by simp
  have "length (mat_T (row # v # va)) = c"
    using T row by (simp add: is_shape_def)
  moreover have "\<forall>col\<in>set (mat_T (row # v # va)). length col = r"
    using T r by (auto simp: is_shape_def list_all_iff dest!: set_zip_rightD)
  ultimately show ?case by (simp add: is_shape_def list_all_iff)
qed

lemma mat_add_entry:
  assumes "mat_add A B = Inr S" "is_shape r c A" "is_shape r c B" "i < r" "j < c"
  shows "S ! i ! j = A ! i ! j + B ! i ! j"
proof -
  from assms(1) have S: "S = map2 (map2 (\<lambda>x y. x + y)) A B"
    by (simp add: mat_add_def split: if_splits)
  have "length (A ! i) = c" "length (B ! i) = c"
    using assms(2-4) by (simp_all add: is_shape_def list_all_iff)
  then show ?thesis
    using assms(2-5) by (simp add: S is_shape_def)
qed

lemma sum_axis0_entry:
  assumes "sum_axis0 Ms = Inr S" "list_all (is_shape r c) Ms" "0 < r" "i < r" "j < c"
  shows "S ! i ! j = sum_list (map (\<lambda>M. M ! i ! j) Ms)"
  using assms
proof (induction Ms arbitrary: S rule: sum_axis0.induct)
  case 1
  then show ?case by simp
next
  case (2 M)
  then show ?case by simp
next
  case (3 M N Ms)
  from 3(3) have sh: "is_shape r c M" "list_all (is_shape r c) (N # Ms)" by simp_all
  from is_shape_sum_axis0[OF _ sh(2) 3(4)]
  obtain T where T: "sum_axis0 (N # Ms) = Inr T" "is_shape r c T" by auto
  from 3(2) T(1) have add: "mat_add M T = Inr S" by simp
  from 3(1)[OF T(1) sh(2) 3(4,5,6)]
  have "T ! i ! j = sum_list (map (\<lambda>M. M ! i ! j) (N # Ms))" .
  with mat_add_entry[OF add sh(1) T(2) 3(5,6)] show ?case by simp
qed

lemma scale_entry:
  "is_shape r c M \<Longrightarrow> i < r \<Longrightarrow> j < c \<Longrightarrow> scale a M ! i ! j = a * M ! i ! j"
  by (simp add: scale_def is_shape_def list_all_iff)

lemma weighted_perms_entry:
  assumes "weighted_perms l (map (from_qubit_location n) locations) = Inr P"
    and "i < 2 ^ n" "j < 2 ^ n"
  shows "P ! i ! j =
     sum_list (map (\<lambda>(a, s). complex_of_real a * s ! i ! j)
                   (zip l (map (from_qubit_location n) locations)))"
proof -
  let ?zs = "zip l (map (from_qubit_location n) locations)"
  let ?Ms = "map (\<lambda>(a, s). scale (complex_of_real a) s) ?zs"
  have sh: "\<forall>(a, s)\<in>set ?zs. is_shape (2 ^ n) (2 ^ n) s"
    by (auto dest!: set_zip_rightD simp: is_shape_from_qubit_location)
  then have all: "list_all (is_shape (2 ^ n) (2 ^ n)) ?Ms"
    by (auto simp: list_all_iff intro!: is_shape_scale)
  from assms(1) have "sum_axis0 ?Ms = Inr P" by (simp add: weighted_perms_def)
  from sum_axis0_entry[OF this all _ assms(2,3)]
  have "P ! i ! j = sum_list (map (\<lambda>M. M ! i ! j) ?Ms)" by simp
  also have "\<dots> = sum_list (map (\<lambda>(a, s). scale (complex_of_real a) s ! i ! j) ?zs)"
    by (simp add: comp_def case_prod_unfold)
  also have "\<dots> = sum_list (map (\<lambda>(a, s). complex_of_real a * s ! i ! j) ?zs)"
    using sh assms(2,3) by (intro arg_cong[where f = sum_list] map_cong refl) (auto simp: scale_entry)
  finally show ?thesis .
qed

lemma vlg_get_unitary_steps:
  assumes "length params = vlg_num_params v"
    and "weighted_perms (softmax (drop (get_num_params (vlg_gate v)) params) 10) (vlg_perms v) = Inr P"
    and "gate_get_unitary (vlg_gate v) (take (get_num_params (vlg_gate v)) params) = Inr G"
  shows "vlg_get_unitary closest_to v params =
     (case matmul P (kron G (vlg_I v)) of
        Inl e \<Rightarrow> Inl e
      | Inr PK \<Rightarrow>
          (case matmul PK (mat_T P) of
             Inl e \<Rightarrow> Inl e
           | Inr PGPT \<Rightarrow> closest_to PGPT (vlg_radixes v)))"
  using assms by (simp add: vlg_get_unitary_def check_parameters_def split_params_def)


section \<open>Evaluating a VariableLocationGate\<close>

lemma from_qubit_location_2_0: "from_qubit_location 2 [0] = [[1,0,0,0],[0,1,0,0],[0,0,1,0],[0,0,0,1]]"
  by code_simp
lemma from_qubit_location_2_1: "from_qubit_location 2 [1] = [[1,0,0,0],[0,0,1,0],[0,1,0,0],[0,0,0,1]]"
  by code_simp

lemma softmax_equal_weights: "softmax [0, 0] 10 = [1 / 2, 1 / 2]"
  by (simp add: softmax_def)

lemma identity2: "identity 2 = [[1, 0], [0, 1]]"
  by (simp add: numeral_2_eq_2)

lemma identity3: "identity 3 = [[1, 0, 0], [0, 1, 0], [0, 0, 1]]"
  by (simp add: numeral_3_eq_3)

lemma weighted_perms_equal: "weighted_perms (softmax [0, 0] 10) [from_qubit_location 2 [0], from_qubit_location 2 [1]] = Inr half_swap"
  unfolding softmax_equal_weights from_qubit_location_2_0 from_qubit_location_2_1
  by (simp add: weighted_perms_def scale_def mat_add_def n_rows_def n_cols_def half_swap_def)

lemma qutrit_vlg_init:
  "VariableLocationGate_init distinct qutrit_identity_gate [[0], [1]] = Inr qutrit_vlg"
  by (simp add: VariableLocationGate_init_def qutrit_identity_gate_def py_max_def qutrit_vlg_def
      default_radix_def numeral_2_eq_2)

lemma n_cols_half_swap: "n_cols half_swap = 4" "n_rows half_swap = 4"
  by (simp_all add: n_cols_def n_rows_def half_swap_def)

lemma kron_3_2: "n_rows (kron (identity 3) (identity 2)) = 6"
  unfolding identity2 identity3 by (simp add: kron_def n_rows_def)

lemma U2_at_0:
  "U2_get_unitary [0, 0] = Inr [[complex_of_real (sqrt 2 / 2), - complex_of_real (sqrt 2 / 2)],
        [complex_of_real (sqrt 2 / 2), complex_of_real (sqrt 2 / 2)]]"
  by (simp add: U2_get_unitary_def check_parameters_def Let_def)

lemma U2_grad_at_0:
  "U2_get_grad [0, 0] =
     Inr [[[0, 0], [\<i> * complex_of_real (sqrt 2 / 2), \<i> * complex_of_real (sqrt 2 / 2)]],
          [[0, - (\<i> * complex_of_real (sqrt 2 / 2))], [0, \<i> * complex_of_real (sqrt 2 / 2)]]]"
  by (simp add: U2_get_grad_def check_parameters_def Let_def)

lemma example_P:
  "weighted_perms (softmax (drop (get_num_params (vlg_gate example_vlg)) [0, 0, 0, 0]) 10)
     (vlg_perms example_vlg) = Inr half_swap"
  using weighted_perms_equal by (simp add: example_vlg_def U2Gate_def)

lemma example_U:
  "gate_get_unitary (vlg_gate example_vlg) (take (get_num_params (vlg_gate example_vlg)) [0, 0, 0, 0])
     = Inr [[complex_of_real (sqrt 2 / 2), - complex_of_real (sqrt 2 / 2)],
            [complex_of_real (sqrt 2 / 2), complex_of_real (sqrt 2 / 2)]]"
  using U2_at_0 by (simp add: example_vlg_def U2Gate_def)

lemma example_unitary_and_grad:
  "\<exists>grads. vlg_get_unitary_and_grad example_vlg [0, 0, 0, 0]
      = Inr (PGPT0 (complex_of_real (sqrt 2 / 2)), grads)"
proof -
  have l: "check_parameters (vlg_num_params example_vlg) [0, 0, 0, 0] = Inr ()"
    by (simp add: check_parameters_def example_vlg_def)
  have sp: "split_params example_vlg [0, 0, 0, 0] = ([0, 0], [0, 0])"
    by (simp add: split_params_def example_vlg_def U2Gate_def)
  have P: "weighted_perms (softmax [0, 0] 10) (vlg_perms example_vlg) = Inr half_swap"
    using weighted_perms_equal by (simp add: example_vlg_def)
  have U: "gate_get_unitary (vlg_gate example_vlg) [0, 0] = Inr [[complex_of_real (sqrt 2 / 2), - complex_of_real (sqrt 2 / 2)],
            [complex_of_real (sqrt 2 / 2), complex_of_real (sqrt 2 / 2)]]"
    using U2_at_0 by (simp add: example_vlg_def U2Gate_def)
  have dU: "gate_get_grad (vlg_gate example_vlg) [0, 0] =
     Inr (Array3 [[[0, 0], [\<i> * complex_of_real (sqrt 2 / 2), \<i> * complex_of_real (sqrt 2 / 2)]],
          [[0, - (\<i> * complex_of_real (sqrt 2 / 2))], [0, \<i> * complex_of_real (sqrt 2 / 2)]]])"
    using U2_grad_at_0 by (simp add: example_vlg_def U2Gate_def)
  have I: "vlg_I example_vlg = [[1, 0], [0, 1]]"
    by (simp add: example_vlg_def identity2)
  have pm: "vlg_perms example_vlg = [[[1,0,0,0],[0,1,0,0],[0,0,1,0],[0,0,0,1]], [[1,0,0,0],[0,0,1,0],[0,1,0,0],[0,0,0,1]]]"
    using from_qubit_location_2_0 from_qubit_location_2_1 by (simp add: example_vlg_def)
  show ?thesis
    unfolding vlg_get_unitary_and_grad_def l sp
    apply (simp only: sum.case prod.case ndarray.case Let_def P U dU I softmax_equal_weights)
    apply (simp add: pm weighted_perms_def kron_def matmul_def n_rows_def n_cols_def half_swap_def dot_def mat_add_def mat_sub_def scale_def PGPT0_def)
    done
qed


lemma example_get_unitary:
  "vlg_get_unitary closest_to example_vlg [0, 0, 0, 0]
     = closest_to (PGPT0 (complex_of_real (sqrt 2 / 2))) [2, 2]"
proof -
  have l: "length [0, 0, 0, 0 :: real] = vlg_num_params example_vlg"
    by (simp add: example_vlg_def)
  have I: "vlg_I example_vlg = [[1, 0], [0, 1]]"
    by (simp add: example_vlg_def identity2)
  have r: "vlg_radixes example_vlg = [2, 2]" by (simp add: example_vlg_def)
  show ?thesis
    unfolding vlg_get_unitary_steps[OF l example_P example_U] I r
    by (simp add: kron_def matmul_def n_rows_def n_cols_def half_swap_def dot_def PGPT0_def)
qed

lemma PGPT0_not_unitary: "\<not> is_unitary (PGPT0 (complex_of_real (sqrt 2 / 2)))"
proof
  have len: "n_rows (PGPT0 (complex_of_real (sqrt 2 / 2))) = 4"
    by (simp add: n_rows_def PGPT0_def)
  assume "is_unitary (PGPT0 (complex_of_real (sqrt 2 / 2)))"
  then have "matmul (PGPT0 (complex_of_real (sqrt 2 / 2))) (dagger (PGPT0 (complex_of_real (sqrt 2 / 2))))
      = Inr (identity 4)"
    unfolding is_unitary_def len .
  then have "entry (matmul (PGPT0 (complex_of_real (sqrt 2 / 2))) (dagger (PGPT0 (complex_of_real (sqrt 2 / 2))))) 0 0
      = entry (Inr (identity 4)) 0 0"
    by simp
  moreover have "entry (Inr (identity 4)) 0 0 = 1"
    by (simp add: entry_def eval_nat_numeral)
  moreover have "entry (matmul (PGPT0 (complex_of_real (sqrt 2 / 2))) (dagger (PGPT0 (complex_of_real (sqrt 2 / 2))))) 0 0
      = 3 / 4"
  proof -
    show ?thesis
      using sq2_sq by (simp add: entry_def matmul_def dagger_def PGPT0_def n_rows_def n_cols_def dot_def)
  qed
  ultimately show False by simp
qed

section \<open>The unitary of a VariableLocationGate\<close>

text \<open>
  Claim C2. For a VariableLocationGate built by the constructor and a parameter vector
  of valid length on whose prefix the subgate returns the matrix \<open>G\<close>: \<^verbatim>\<open>get_unitary\<close>
  forms \<open>P\<close>, the sum of the candidates' permutation matrices weighted by the softmax at
  temperature 10 of the weight suffix. When \<open>G\<close> has the dimension of a subgate on qubits,
  \<open>2 ^ size\<close>, the call returns what \<^verbatim>\<open>closest_to\<close> returns for the product
  \<^verbatim>\<open>P @ kron(G, I) @ P.T\<close> and the gate's radixes, the pad \<open>I\<close> being the identity of
  dimension \<open>2 ^ extension_size\<close>. When \<open>G\<close> has another number of rows, as for a subgate
  with a radix other than 2, the product is not defined and the call raises the shape
  error of numpy instead of returning.
\<close>

theorem vlg_get_unitary_formula:
  assumes init: "VariableLocationGate_init is_valid_location g locations = Inr v"
    and len: "length params = vlg_num_params v"
    and G: "gate_get_unitary g (take (get_num_params g) params) = Inr G"
  shows "\<exists>P. weighted_perms (softmax (drop (get_num_params g) params) 10)
               (map (from_qubit_location (vlg_size v)) locations) = Inr P
     \<and> (\<forall>i<2 ^ vlg_size v. \<forall>j<2 ^ vlg_size v.
           P ! i ! j = sum_list (map (\<lambda>(w, perm). complex_of_real w * perm ! i ! j)
                          (zip (softmax (drop (get_num_params g) params) 10)
                               (map (from_qubit_location (vlg_size v)) locations))))
     \<and> (is_shape (2 ^ get_size g) (2 ^ get_size g) G \<longrightarrow>
          (\<exists>PK PGPT. matmul P (kron G (identity (2 ^ (vlg_size v - get_size g)))) = Inr PK
             \<and> matmul PK (mat_T P) = Inr PGPT
             \<and> vlg_get_unitary closest_to v params = closest_to PGPT (vlg_radixes v)))
     \<and> (n_rows G \<noteq> 2 ^ get_size g \<longrightarrow>
          vlg_get_unitary closest_to v params = Inl ShapeError)"
proof -
  note I = VariableLocationGate_init_Inr[OF init]
  let ?n = "vlg_size v" and ?sg = "get_size g"
  let ?w = "softmax (drop (get_num_params g) params) 10"
  let ?e = "?n - ?sg"
  have lw: "length ?w = length locations"
    using len I(6) by (simp add: length_softmax)
  from is_shape_weighted_perms[OF lw I(1), of ?n]
  obtain P where P: "weighted_perms ?w (map (from_qubit_location ?n) locations) = Inr P"
      and Psh: "is_shape (2 ^ ?n) (2 ^ ?n) P"
    by blast
  have Ieq: "vlg_I v = identity (2 ^ ?e)"
    using I(8,9) by (simp add: nat_diff_distrib')
  have pw: "(2::nat) ^ ?sg * 2 ^ ?e = 2 ^ ?n"
    using I(9) by (simp add: power_add[symmetric])
  have steps: "vlg_get_unitary closest_to v params =
     (case matmul P (kron G (identity (2 ^ ?e))) of
        Inl e \<Rightarrow> Inl e
      | Inr PK \<Rightarrow>
          (case matmul PK (mat_T P) of
             Inl e \<Rightarrow> Inl e
           | Inr PGPT \<Rightarrow> closest_to PGPT (vlg_radixes v)))"
    using vlg_get_unitary_steps[of params v P G closest_to] len P G
    by (simp add: I(4,7) Ieq)
  have entries: "\<forall>i<2 ^ ?n. \<forall>j<2 ^ ?n.
           P ! i ! j = sum_list (map (\<lambda>(w, perm). complex_of_real w * perm ! i ! j)
                          (zip ?w (map (from_qubit_location ?n) locations)))"
    using weighted_perms_entry[OF P] by blast
  have pos: "is_shape (2 ^ ?sg) (2 ^ ?sg) G \<longrightarrow>
          (\<exists>PK PGPT. matmul P (kron G (identity (2 ^ ?e))) = Inr PK
             \<and> matmul PK (mat_T P) = Inr PGPT
             \<and> vlg_get_unitary closest_to v params = closest_to PGPT (vlg_radixes v))"
  proof
    assume Gsh: "is_shape (2 ^ ?sg) (2 ^ ?sg) G"
    have K: "is_shape (2 ^ ?n) (2 ^ ?n) (kron G (identity (2 ^ ?e)))"
      using is_shape_kron[OF Gsh is_shape_identity[of "2 ^ ?e"]] by (simp add: pw)
    from matmul_shape[OF Psh K]
    obtain PK where PK: "matmul P (kron G (identity (2 ^ ?e))) = Inr PK"
        "is_shape (2 ^ ?n) (2 ^ ?n) PK" by auto
    have T: "is_shape (2 ^ ?n) (2 ^ ?n) (mat_T P)"
      using is_shape_mat_T[OF Psh] by simp
    from matmul_shape[OF PK(2) T]
    obtain M where M: "matmul PK (mat_T P) = Inr M" by auto
    show "\<exists>PK PGPT. matmul P (kron G (identity (2 ^ ?e))) = Inr PK
             \<and> matmul PK (mat_T P) = Inr PGPT
             \<and> vlg_get_unitary closest_to v params = closest_to PGPT (vlg_radixes v)"
      using PK(1) M by (auto simp: steps)
  qed
  have neg: "n_rows G \<noteq> 2 ^ ?sg \<longrightarrow> vlg_get_unitary closest_to v params = Inl ShapeError"
  proof
    assume "n_rows G \<noteq> 2 ^ ?sg"
    then have "length G * 2 ^ ?e \<noteq> 2 ^ ?sg * 2 ^ ?e" by (simp add: n_rows_def)
    then have "n_rows (kron G (identity (2 ^ ?e))) \<noteq> 2 ^ ?n"
      using is_shape_identity[of "2 ^ ?e"] by (simp add: n_rows_def length_kron is_shape_def pw)
    moreover have "n_cols P = 2 ^ ?n" using is_shape_n_cols[OF Psh] by simp
    ultimately have "matmul P (kron G (identity (2 ^ ?e))) = Inl ShapeError"
      by (simp add: matmul_def)
    then show "vlg_get_unitary closest_to v params = Inl ShapeError"
      by (simp add: steps)
  qed
  show ?thesis using P entries pos neg by blast
qed

text \<open>
  U2 over the candidates \<open>(0)\<close> and \<open>(1)\<close> returns; the qutrit identity over the same
  candidates raises. \<^verbatim>\<open>closest_to\<close> is instantiated by the function that returns its
  argument.
\<close>

theorem vlg_get_unitary_formula_witness:
  "VariableLocationGate_init distinct U2Gate [[0], [1]] = Inr example_vlg
   \<and> length [0, 0, 0, 0 :: real] = vlg_num_params example_vlg
   \<and> (\<exists>PGPT. vlg_get_unitary (\<lambda>M r. Inr M) example_vlg [0, 0, 0, 0] = Inr PGPT)
   \<and> VariableLocationGate_init distinct qutrit_identity_gate [[0], [1]] = Inr qutrit_vlg
   \<and> length [0, 0 :: real] = vlg_num_params qutrit_vlg
   \<and> vlg_get_unitary (\<lambda>M r. Inr M) qutrit_vlg [0, 0] = Inl ShapeError"
proof -
  have l1: "length [0, 0, 0, 0 :: real] = vlg_num_params example_vlg"
    by (simp add: example_vlg_def)
  have g1: "gate_get_unitary U2Gate (take (get_num_params U2Gate) [0, 0, 0, 0])
      = Inr [[complex_of_real (sqrt 2 / 2), - complex_of_real (sqrt 2 / 2)],
             [complex_of_real (sqrt 2 / 2), complex_of_real (sqrt 2 / 2)]]"
    using U2_at_0 by (simp add: U2Gate_def)
  have s1: "is_shape (2 ^ get_size U2Gate) (2 ^ get_size U2Gate)
      [[complex_of_real (sqrt 2 / 2), - complex_of_real (sqrt 2 / 2)],
       [complex_of_real (sqrt 2 / 2), complex_of_real (sqrt 2 / 2)]]"
    by (simp add: is_shape_def U2Gate_def)
  from vlg_get_unitary_formula[OF example_vlg_init l1 g1, of "\<lambda>M r. Inr M"] s1
  have A: "\<exists>PGPT. vlg_get_unitary (\<lambda>M r. Inr M) example_vlg [0, 0, 0, 0] = Inr PGPT"
    by blast
  have l2: "length [0, 0 :: real] = vlg_num_params qutrit_vlg"
    by (simp add: qutrit_vlg_def)
  have g2: "gate_get_unitary qutrit_identity_gate (take (get_num_params qutrit_identity_gate) [0, 0])
      = Inr (identity 3)"
    by (simp add: qutrit_identity_gate_def check_parameters_def)
  have s2: "n_rows (identity 3) \<noteq> 2 ^ get_size qutrit_identity_gate"
    by (simp add: identity3 n_rows_def qutrit_identity_gate_def)
  from vlg_get_unitary_formula[OF qutrit_vlg_init l2 g2, of "\<lambda>M r. Inr M"] s2
  have B: "vlg_get_unitary (\<lambda>M r. Inr M) qutrit_vlg [0, 0] = Inl ShapeError"
    by blast
  show ?thesis using example_vlg_init l1 A qutrit_vlg_init l2 B by blast
qed

text \<open>
  Claim C3 fails on the variable-location gate over a qutrit gate. The constructor
  accepts the qutrit identity with the candidates \<open>(0)\<close> and \<open>(1)\<close> and declares the
  radixes \<open>(3, 3)\<close>, of product 9; \<^verbatim>\<open>get_unitary\<close> on a parameter vector of the valid
  length 2 raises the shape error of numpy, whatever \<^verbatim>\<open>closest_to\<close> is: the pad has
  dimension 2 and the permutation matrices dimension 4, so the product of a 4-by-4 and
  a 6-by-6 matrix is asked for.
\<close>

theorem qutrit_get_unitary_fails:
  "VariableLocationGate_init distinct qutrit_identity_gate [[0], [1]] = Inr qutrit_vlg
   \<and> vlg_radixes qutrit_vlg = [3, 3]
   \<and> prod_list (vlg_radixes qutrit_vlg) = 9
   \<and> length [0, 0 :: real] = vlg_num_params qutrit_vlg
   \<and> vlg_get_unitary closest_to qutrit_vlg [0, 0] = Inl ShapeError"
proof -
  have l: "length [0, 0 :: real] = vlg_num_params qutrit_vlg"
    by (simp add: qutrit_vlg_def)
  have n: "get_num_params (vlg_gate qutrit_vlg) = 0"
    by (simp add: qutrit_vlg_def qutrit_identity_gate_def)
  have p: "weighted_perms (softmax (drop (get_num_params (vlg_gate qutrit_vlg)) [0, 0]) 10)
             (vlg_perms qutrit_vlg) = Inr half_swap"
    unfolding n using weighted_perms_equal by (simp add: qutrit_vlg_def)
  have g: "gate_get_unitary (vlg_gate qutrit_vlg) (take (get_num_params (vlg_gate qutrit_vlg)) [0, 0])
             = Inr (identity 3)"
    unfolding n by (simp add: qutrit_vlg_def qutrit_identity_gate_def check_parameters_def)
  have i: "vlg_I qutrit_vlg = identity 2" by (simp add: qutrit_vlg_def)
  have m: "matmul half_swap (kron (identity 3) (identity 2)) = Inl ShapeError"
    by (simp add: matmul_def n_cols_half_swap kron_3_2)
  have "vlg_get_unitary closest_to qutrit_vlg [0, 0] = Inl ShapeError"
    unfolding vlg_get_unitary_steps[OF l p g] i m by simp
  moreover have "vlg_radixes qutrit_vlg = [3, 3]" by (simp add: qutrit_vlg_def)
  ultimately show ?thesis using qutrit_vlg_init l by simp
qed

text \<open>
  Claim C10 fails on U2 over the candidates \<open>(0)\<close> and \<open>(1)\<close> at the parameters
  \<open>[0, 0, 0, 0]\<close>. The first component of \<^verbatim>\<open>get_unitary_and_grad\<close> is the product
  \<^verbatim>\<open>P @ kron(G, I) @ P.T\<close> itself, which is not unitary (the first diagonal entry of its
  product with its conjugate transpose is 3/4), while \<^verbatim>\<open>get_unitary\<close> returns what
  \<^verbatim>\<open>closest_to\<close> makes of that product. Whenever \<^verbatim>\<open>closest_to\<close> returns unitary
  matrices only, the two results differ.
\<close>

theorem get_unitary_and_grad_unprojected:
  "first_of (vlg_get_unitary_and_grad example_vlg [0, 0, 0, 0])
     = Inr (PGPT0 (complex_of_real (sqrt 2 / 2)))
   \<and> vlg_get_unitary closest_to example_vlg [0, 0, 0, 0]
     = closest_to (PGPT0 (complex_of_real (sqrt 2 / 2))) [2, 2]
   \<and> \<not> is_unitary (PGPT0 (complex_of_real (sqrt 2 / 2)))
   \<and> ((\<forall>M r U. closest_to M r = Inr U \<longrightarrow> is_unitary U) \<longrightarrow>
        vlg_get_unitary closest_to example_vlg [0, 0, 0, 0]
          \<noteq> first_of (vlg_get_unitary_and_grad example_vlg [0, 0, 0, 0]))"
proof -
  from example_unitary_and_grad
  have a: "first_of (vlg_get_unitary_and_grad example_vlg [0, 0, 0, 0])
     = Inr (PGPT0 (complex_of_real (sqrt 2 / 2)))"
    by (auto simp: first_of_def)
  note b = example_get_unitary[of closest_to]
  note c = PGPT0_not_unitary
  have d: "(\<forall>M r U. closest_to M r = Inr U \<longrightarrow> is_unitary U) \<longrightarrow>
        vlg_get_unitary closest_to example_vlg [0, 0, 0, 0]
          \<noteq> first_of (vlg_get_unitary_and_grad example_vlg [0, 0, 0, 0])"
    unfolding a b using c by metis
  show ?thesis using a b c d by blast
qed

text \<open>With a \<^verbatim>\<open>closest_to\<close> that always returns the identity of dimension 4.\<close>

theorem get_unitary_and_grad_unprojected_witness:
  "is_unitary (identity 4)
   \<and> vlg_get_unitary (\<lambda>M r. Inr (identity 4)) example_vlg [0, 0, 0, 0] = Inr (identity 4)
   \<and> vlg_get_unitary (\<lambda>M r. Inr (identity 4)) example_vlg [0, 0, 0, 0]
        \<noteq> first_of (vlg_get_unitary_and_grad example_vlg [0, 0, 0, 0])"
proof -
  have i4: "identity 4 = [[1, 0, 0, 0], [0, 1, 0, 0], [0, 0, 1, 0], [0, 0, 0, 1]]"
    by (simp add: eval_nat_numeral)
  have u: "is_unitary (identity 4)"
    unfolding i4 by (simp add: is_unitary_def matmul_def dagger_def n_rows_def n_cols_def dot_def)
  then have h: "\<forall>M r U. (\<lambda>M r. Inr (identity 4)) M r = Inr U \<longrightarrow> is_unitary U"
    by simp
  note T = get_unitary_and_grad_unprojected[of "\<lambda>M r. Inr (identity 4)"]
  show ?thesis using T h u by blast
qed

end
